theory Spec2Isabelle
  imports Complex_Main "HOL-Library.List_Lexorder"
begin

section \<open>Python values\<close>

text \<open>
  A Python \<open>str\<close> is a sequence of Unicode code points; it is modelled as a list of
  natural numbers, so that \<open>len\<close> is \<open>length\<close>. ASCII literals are written
  \<open>lit ''...''\<close>. A Python \<open>float\<close> is modelled as a real number: the model covers
  finite floats and is exact where the source rounds.
\<close>

type_synonym pystr = "nat list"

definition lit :: "string \<Rightarrow> pystr" where
  "lit s = map of_char s"

datatype py_error =
    IndexError
  | ValueError pystr
  | RuntimeError pystr
  | FileNotFoundError pystr

text \<open>\<open>s.replace(c, r)\<close> for a one-character pattern \<open>c\<close>.\<close>

definition replace_char :: "nat \<Rightarrow> pystr \<Rightarrow> pystr \<Rightarrow> pystr" where
  "replace_char c r s = concat (map (\<lambda>x. if x = c then r else [x]) s)"

section \<open>Concat descriptors: \<open>_write_concat_list\<close>\<close>

text \<open>
  The descriptor file is modelled by its lines. \<open>FileLine p\<close> is the line
  \<open>file '<p>'\<close>, \<open>DurationLine d\<close> the line \<open>duration <d>\<close> (printed with six decimals
  by the source).
\<close>

datatype concat_line = FileLine pystr | DurationLine real

text \<open>
  The inner function \<open>q\<close>. \<open>os.path.abspath\<close> is a parameter. Code point 92 is the
  backslash, 47 the forward slash, 39 the single quote.
\<close>

definition q :: "(pystr \<Rightarrow> pystr) \<Rightarrow> pystr \<Rightarrow> pystr" where
  "q abspath p =
     (let p2 = replace_char 92 [47] (abspath p)
      in replace_char 39 [92, 39] p2)"

text \<open>
  The \<open>for idx, p in enumerate(paths)\<close> loop; \<open>f\<close> is what has been written so far.
  \<open>durations[idx]\<close> raises \<open>IndexError\<close> when the list is too short.
\<close>

fun write_loop ::
  "(pystr \<Rightarrow> pystr) \<Rightarrow> real list option \<Rightarrow> (nat \<times> pystr) list \<Rightarrow> concat_line list
     \<Rightarrow> py_error + concat_line list" where
  "write_loop ap durations [] f = Inr f"
| "write_loop ap durations ((idx, p) # rest) f =
     (let f1 = f @ [FileLine (q ap p)] in
      case durations of
        None \<Rightarrow> write_loop ap durations rest f1
      | Some ds \<Rightarrow>
          if idx < length ds then
            (let d = ds ! idx;
                 d2 = (if d \<le> 0 then 0.01 else d)
             in write_loop ap durations rest (f1 @ [DurationLine d2]))
          else Inl IndexError)"

definition write_concat_list ::
  "(pystr \<Rightarrow> pystr) \<Rightarrow> pystr list \<Rightarrow> real list option \<Rightarrow> py_error + concat_line list" where
  "write_concat_list ap paths durations =
     (case write_loop ap durations (enumerate 0 paths) [] of
        Inl e \<Rightarrow> Inl e
      | Inr f \<Rightarrow>
          if paths \<noteq> [] \<and> durations \<noteq> None
          then Inr (f @ [FileLine (q ap (last paths))])
          else Inr f)"

text \<open>
  How the concat demuxer reads a descriptor, in the spec's words: an ordered sequence of
  \<open>(file_path, duration_or_none)\<close> entries, a duration line belonging to the file line
  directly before it.
\<close>

fun entries :: "concat_line list \<Rightarrow> (pystr \<times> real option) list" where
  "entries [] = []"
| "entries (FileLine p # DurationLine d # rest) = (p, Some d) # entries rest"
| "entries (FileLine p # rest) = (p, None) # entries rest"
| "entries (DurationLine d # rest) = entries rest"

definition is_duration_line :: "concat_line \<Rightarrow> bool" where
  "is_duration_line l = (case l of DurationLine d \<Rightarrow> True | FileLine p \<Rightarrow> False)"

text \<open>The duration the writer puts on a line: values \<open>\<le> 0\<close> become \<open>0.01\<close>.\<close>

definition written_duration :: "real \<Rightarrow> real" where
  "written_duration d = (if d \<le> 0 then 0.01 else d)"

section \<open>Caption segments: \<open>_get_subtitle_segments\<close>\<close>

text \<open>
  \<open>str.isspace\<close> on one code point, as \<open>str.strip()\<close> uses it: the Unicode white space
  that Python strips.
\<close>

definition is_space :: "nat \<Rightarrow> bool" where
  "is_space c =
     ((9 \<le> c \<and> c \<le> 13) \<or> (28 \<le> c \<and> c \<le> 32) \<or> c = 133 \<or> c = 160 \<or> c = 5760
      \<or> (8192 \<le> c \<and> c \<le> 8202) \<or> c = 8232 \<or> c = 8233 \<or> c = 8239 \<or> c = 8287
      \<or> c = 12288)"

definition strip :: "pystr \<Rightarrow> pystr" where
  "strip s = rev (dropWhile is_space (rev (dropWhile is_space s)))"

text \<open>
  The character class of the splitting pattern: ideographic full stop and comma, fullwidth
  exclamation and question mark, their ASCII forms, and the newline.
\<close>

definition is_punct :: "nat \<Rightarrow> bool" where
  "is_punct c =
     (c = 12290 \<or> c = 12289 \<or> c = 65281 \<or> c = 65311 \<or> c = 33 \<or> c = 63 \<or> c = 10)"

text \<open>
  \<open>re.split\<close> with the pattern in a capture group: the result alternates text pieces and
  the maximal punctuation runs between them, starting and ending with a text piece (which
  may be empty). \<open>split_text acc s\<close> is inside a text piece, \<open>split_punct acc s\<close>
  inside a punctuation run; \<open>acc\<close> is the piece read so far.
\<close>

fun split_text :: "pystr \<Rightarrow> pystr \<Rightarrow> pystr list"
  and split_punct :: "pystr \<Rightarrow> pystr \<Rightarrow> pystr list" where
  "split_text acc [] = [acc]"
| "split_text acc (c # cs) =
     (if is_punct c then acc # split_punct [c] cs else split_text (acc @ [c]) cs)"
| "split_punct acc [] = [acc, []]"
| "split_punct acc (c # cs) =
     (if is_punct c then split_punct (acc @ [c]) cs else acc # split_text [c] cs)"

definition re_split :: "pystr \<Rightarrow> pystr list" where
  "re_split s = split_text [] s"

text \<open>
  \<open>re.match\<close> of the anchored pattern: the piece is a non-empty run of punctuation.
\<close>

definition match_punct :: "pystr \<Rightarrow> bool" where
  "match_punct s = (s \<noteq> [] \<and> list_all is_punct s)"

text \<open>The \<open>while i < len(raw_segments)\<close> loop, on the pieces from index \<open>i\<close> on.\<close>

fun merge_segments :: "pystr list \<Rightarrow> pystr list" where
  "merge_segments [] = []"
| "merge_segments [t] = [t]"
| "merge_segments (t # p # rest) =
     (if match_punct p then (t @ p) # merge_segments rest
      else t # merge_segments (p # rest))"

record segment =
  seg_text :: pystr
  start_ratio :: real
  end_ratio :: real

text \<open>The \<open>for text in merged_segments\<close> loop, with the running \<open>char_count\<close>.\<close>

fun ratio_loop :: "nat \<Rightarrow> nat \<Rightarrow> pystr list \<Rightarrow> segment list" where
  "ratio_loop total_chars char_count [] = []"
| "ratio_loop total_chars char_count (t # ts) =
     (let s = real char_count / real total_chars;
          char_count2 = char_count + length t;
          e = real char_count2 / real total_chars
      in \<lparr>seg_text = t, start_ratio = s, end_ratio = e\<rparr>
           # ratio_loop total_chars char_count2 ts)"

definition get_subtitle_segments :: "pystr \<Rightarrow> segment list" where
  "get_subtitle_segments script =
     (if script = [] then []
      else
        let raw_segments = filter (\<lambda>s. strip s \<noteq> []) (re_split script);
            merged_segments = merge_segments raw_segments
        in if merged_segments = [] then []
           else
             let total_chars = sum_list (map length merged_segments)
             in if total_chars = 0 then []
                else ratio_loop total_chars 0 merged_segments)"

section \<open>Subtitle timeline: \<open>_generate_ass_subtitle\<close>\<close>

text \<open>
  An entry of \<open>slides_info\<close>: a dict read with \<open>slide.get('script', '')\<close> and
  \<open>slide.get('duration', 3.0)\<close>, so a missing key is \<open>None\<close> here.
\<close>

record slide_info =
  si_script :: "pystr option"
  si_duration :: "real option"

text \<open>
  A \<open>Dialogue\<close> event. The source prints the two times with \<open>format_time\<close> as
  \<open>H:MM:SS.CC\<close>; the model keeps them in seconds.
\<close>

record event =
  ev_start :: real
  ev_end :: real
  ev_text :: pystr

definition min_seg :: real where
  "min_seg = 0.15"

text \<open>The body of \<open>for seg in segments\<close>. Code point 10 is the newline, 92 78 is \<open>\N\<close>.\<close>

definition seg_event :: "real \<Rightarrow> real \<Rightarrow> segment \<Rightarrow> event" where
  "seg_event current_time duration seg =
     (let seg_start = current_time + duration * start_ratio seg;
          seg_end = current_time + duration * end_ratio seg;
          seg_end2 = (if seg_end - seg_start < min_seg then seg_start + min_seg else seg_end)
      in \<lparr>ev_start = seg_start, ev_end = seg_end2,
          ev_text = replace_char 10 [92, 78] (seg_text seg)\<rparr>)"

definition slide_duration :: "slide_info \<Rightarrow> real" where
  "slide_duration slide = (case si_duration slide of None \<Rightarrow> 3.0 | Some d \<Rightarrow> d)"

text \<open>The body of \<open>for slide in slides_info\<close>, up to the update of \<open>current_time\<close>.\<close>

definition slide_events :: "real \<Rightarrow> slide_info \<Rightarrow> event list" where
  "slide_events current_time slide =
     (let script = strip (case si_script slide of None \<Rightarrow> [] | Some s \<Rightarrow> s);
          duration = slide_duration slide
      in if script \<noteq> []
         then map (seg_event current_time duration) (get_subtitle_segments script)
         else [])"

fun ass_events :: "real \<Rightarrow> slide_info list \<Rightarrow> event list" where
  "ass_events current_time [] = []"
| "ass_events current_time (slide # rest) =
     slide_events current_time slide
       @ ass_events (current_time + slide_duration slide) rest"

definition generate_ass_subtitle :: "slide_info list \<Rightarrow> event list" where
  "generate_ass_subtitle slides_info = ass_events 0 slides_info"

text \<open>The span of a caption on screen.\<close>

definition ev_span :: "event \<Rightarrow> real" where
  "ev_span e = ev_end e - ev_start e"

text \<open>The merged pieces of a script: all of them show a character, and there is none
  exactly when the script shows none.\<close>

definition merged_of :: "pystr \<Rightarrow> pystr list" where
  "merged_of script = merge_segments (filter (\<lambda>s. strip s \<noteq> []) (re_split script))"

section \<open>Printing integers\<close>

text \<open>\<open>str(n)\<close> for a Python \<open>int\<close>: decimal digits, with a minus sign when negative.\<close>

fun digits :: "nat \<Rightarrow> pystr" where
  "digits n = (if n < 10 then [48 + n] else digits (n div 10) @ [48 + n mod 10])"

declare digits.simps [simp del]

definition str_int :: "int \<Rightarrow> pystr" where
  "str_int i = (if i < 0 then 45 # digits (nat (- i)) else digits (nat i))"

text \<open>\<open>sep.join(parts)\<close>.\<close>

fun join :: "pystr \<Rightarrow> pystr list \<Rightarrow> pystr" where
  "join sep [] = []"
| "join sep [p] = p"
| "join sep (p # ps) = p @ sep @ join sep ps"

text \<open>\<open>t in s\<close> for strings: \<open>t\<close> occurs in \<open>s\<close> as a contiguous piece.\<close>

definition contains :: "pystr \<Rightarrow> pystr \<Rightarrow> bool" where
  "contains s t = list_ex (\<lambda>k. take (length t) (drop k s) = t) [0..<Suc (length s)]"

section \<open>Encode orchestrator: the filter graph\<close>

text \<open>
  \<open>int(round(max_w * 9 / 16))\<close>. The quotient \<open>max_w * 9 / 16\<close> is a float; dividing by
  16 is exact as long as \<open>max_w * 9\<close> is below \<open>2^53\<close> in magnitude. \<open>round\<close> rounds to
  the nearest integer and a tie to the even neighbour.
\<close>

definition target_height :: "int \<Rightarrow> int" where
  "target_height max_w =
     (let n = max_w * 9; k = n div 16; r = n mod 16
      in if r < 8 then k
         else if 8 < r then k + 1
         else if even k then k else k + 1)"

text \<open>
  \<open>bool(subtitle_path and os.path.exists(subtitle_path))\<close>; \<open>ex\<close> is
  \<open>os.path.exists\<close>.
\<close>

definition has_subtitles :: "(pystr \<Rightarrow> bool) \<Rightarrow> pystr option \<Rightarrow> bool" where
  "has_subtitles ex subtitle_path =
     (case subtitle_path of None \<Rightarrow> False | Some p \<Rightarrow> p \<noteq> [] \<and> ex p)"

text \<open>
  The path in the \<open>subtitles\<close> filter: backslashes become forward slashes, then every
  colon (code point 58) gets a backslash in front.
\<close>

definition abs_sub :: "(pystr \<Rightarrow> pystr) \<Rightarrow> pystr \<Rightarrow> pystr" where
  "abs_sub abspath subtitle_path =
     replace_char 58 [92, 58] (replace_char 92 [47] (abspath subtitle_path))"

text \<open>
  The construction of \<open>vf_parts\<close> in \<open>_render_webm_with_ffmpeg\<close>, one binding per
  statement of the source. \<open>ap\<close> is \<open>os.path.abspath\<close>, \<open>ex\<close> is \<open>os.path.exists\<close>.
\<close>

definition webm_vf_parts ::
  "(pystr \<Rightarrow> pystr) \<Rightarrow> (pystr \<Rightarrow> bool) \<Rightarrow> int \<Rightarrow> int \<Rightarrow> pystr option \<Rightarrow> pystr list" where
  "webm_vf_parts ap ex fps max_w subtitle_path =
     (let vf0 = [];
          max_h = target_height max_w;
          has = has_subtitles ex subtitle_path;
          vf1 = (if has then vf0 @ [lit ''fps='' @ str_int fps] else vf0);
          vf2 = vf1 @ [lit ''scale='' @ str_int max_w @ lit '':'' @ str_int max_h
                       @ lit '':force_original_aspect_ratio=decrease:flags=fast_bilinear''];
          vf3 = vf2 @ [lit ''pad='' @ str_int max_w @ lit '':'' @ str_int max_h
                       @ lit '':(ow-iw)/2:(oh-ih)/2:color=0x303030''];
          vf4 = (if has
                 then vf3 @ [lit ''subtitles='' @ [39]
                             @ abs_sub ap (case subtitle_path of Some p \<Rightarrow> p | None \<Rightarrow> [])
                             @ [39]]
                 else vf3)
      in vf4 @ [lit ''format=yuv420p''])"

text \<open>The same construction in \<open>_render_mp4_with_ffmpeg\<close>.\<close>

definition mp4_vf_parts ::
  "(pystr \<Rightarrow> pystr) \<Rightarrow> (pystr \<Rightarrow> bool) \<Rightarrow> int \<Rightarrow> int \<Rightarrow> pystr option \<Rightarrow> pystr list" where
  "mp4_vf_parts ap ex fps max_w subtitle_path =
     (let vf0 = [];
          max_h = target_height max_w;
          has = has_subtitles ex subtitle_path;
          vf1 = (if has then vf0 @ [lit ''fps='' @ str_int fps] else vf0);
          vf2 = vf1 @ [lit ''scale='' @ str_int max_w @ lit '':'' @ str_int max_h
                       @ lit '':force_original_aspect_ratio=decrease:flags=fast_bilinear''];
          vf3 = vf2 @ [lit ''pad='' @ str_int max_w @ lit '':'' @ str_int max_h
                       @ lit '':(ow-iw)/2:(oh-ih)/2:color=0x303030''];
          vf4 = (if has
                 then vf3 @ [lit ''subtitles='' @ [39]
                             @ abs_sub ap (case subtitle_path of Some p \<Rightarrow> p | None \<Rightarrow> [])
                             @ [39]]
                 else vf3)
      in vf4 @ [lit ''format=yuv420p''])"

text \<open>\<open>vf = ",".join(vf_parts)\<close>; code point 44 is the comma.\<close>

definition webm_vf ::
  "(pystr \<Rightarrow> pystr) \<Rightarrow> (pystr \<Rightarrow> bool) \<Rightarrow> int \<Rightarrow> int \<Rightarrow> pystr option \<Rightarrow> pystr" where
  "webm_vf ap ex fps max_w subtitle_path = join [44] (webm_vf_parts ap ex fps max_w subtitle_path)"

definition mp4_vf ::
  "(pystr \<Rightarrow> pystr) \<Rightarrow> (pystr \<Rightarrow> bool) \<Rightarrow> int \<Rightarrow> int \<Rightarrow> pystr option \<Rightarrow> pystr" where
  "mp4_vf ap ex fps max_w subtitle_path = join [44] (mp4_vf_parts ap ex fps max_w subtitle_path)"

text \<open>
  No colon of a string stands unescaped: each colon has a backslash directly before it.
  \<open>prev\<close> is the character before the rest.
\<close>

fun colons_escaped_after :: "nat \<Rightarrow> pystr \<Rightarrow> bool" where
  "colons_escaped_after prev [] = True"
| "colons_escaped_after prev (c # cs) = ((c \<noteq> 58 \<or> prev = 92) \<and> colons_escaped_after c cs)"

definition colons_escaped :: "pystr \<Rightarrow> bool" where
  "colons_escaped s = colons_escaped_after 0 s"

section \<open>Encode orchestrator: failure of the encoder process\<close>

text \<open>
  What \<open>subprocess.run\<close> returns. The byte strings are lists of byte values; a stream that
  was not captured is \<open>None\<close>.
\<close>

record completed_process =
  returncode :: int
  proc_stderr :: "nat list option"
  proc_stdout :: "nat list option"

text \<open>
  \<open>bytes.decode\<close> is library code and a parameter: strict decoding with UTF-8 and with
  cp932 (\<open>None\<close> when it raises), and UTF-8 decoding with \<open>errors="replace"\<close>, which
  never raises.
\<close>

record codecs =
  decode_utf8 :: "nat list \<Rightarrow> pystr option"
  decode_cp932 :: "nat list \<Rightarrow> pystr option"
  decode_utf8_replace :: "nat list \<Rightarrow> pystr"

text \<open>The local function \<open>safe_decode\<close> of both renderers.\<close>

definition safe_decode :: "codecs \<Rightarrow> nat list \<Rightarrow> pystr" where
  "safe_decode c b =
     (case decode_utf8 c b of
        Some s \<Rightarrow> s
      | None \<Rightarrow>
          (case decode_cp932 c b of
             Some s \<Rightarrow> s
           | None \<Rightarrow> decode_utf8_replace c b))"

text \<open>\<open>x or b""\<close> for an optional byte string.\<close>

definition or_empty :: "nat list option \<Rightarrow> nat list" where
  "or_empty x = (case x of None \<Rightarrow> [] | Some b \<Rightarrow> b)"

text \<open>
  The end of \<open>_render_webm_with_ffmpeg\<close>, after \<open>subprocess.run\<close>: \<open>Inr ()\<close> is the
  normal return.
\<close>

definition webm_check :: "codecs \<Rightarrow> completed_process \<Rightarrow> py_error + unit" where
  "webm_check c proc =
     (if returncode proc \<noteq> 0 then
        (let stderr = or_empty (proc_stderr proc);
             stdout = or_empty (proc_stdout proc);
             err = strip (if safe_decode c stderr \<noteq> [] then safe_decode c stderr
                          else safe_decode c stdout)
         in Inl (RuntimeError (lit ''FFmpeg failed (code='' @ str_int (returncode proc)
                               @ lit ''): '' @ err)))
      else Inr ())"

text \<open>The end of \<open>_render_mp4_with_ffmpeg\<close>.\<close>

definition mp4_check :: "codecs \<Rightarrow> completed_process \<Rightarrow> py_error + unit" where
  "mp4_check c proc =
     (if returncode proc \<noteq> 0 then
        (let stderr = or_empty (proc_stderr proc);
             err = strip (safe_decode c stderr)
         in Inl (RuntimeError (lit ''FFmpeg failed (code='' @ str_int (returncode proc)
                               @ lit ''): '' @ err)))
      else Inr ())"

text \<open>
  A decoder for the examples: on bytes below 128 strict UTF-8 and cp932 decoding are the
  identity; other input is outside the examples and is given as undecodable here.
\<close>

definition decode_ascii :: "nat list \<Rightarrow> pystr option" where
  "decode_ascii b = (if list_all (\<lambda>x. x < 128) b then Some b else None)"

definition ascii_codecs :: codecs where
  "ascii_codecs =
     \<lparr>decode_utf8 = decode_ascii, decode_cp932 = decode_ascii,
      decode_utf8_replace = map (\<lambda>x. if x < 128 then x else 65533)\<rparr>"

text \<open>The diagnostic text of the scenario: \<open>no such filter: 'subtitles'\<close>.\<close>

definition no_such_filter :: pystr where
  "no_such_filter = lit ''no such filter: '' @ [39] @ lit ''subtitles'' @ [39]"

section \<open>The outside world of \<open>combine_audio_video\<close>\<close>

text \<open>
  Everything the assembly reads from outside the program: the \<open>os.path\<close> functions, the
  directory listing, modification times (\<open>None\<close> when \<open>getmtime\<close> raises), the two
  probes of an audio file, the \<open>ffmpeg\<close> runs, \<open>int\<close> on a string and the values of
  the environment variables. The file system is read as it is when the call starts; the
  one file whose creation a later step looks for, the subtitle file, is added where it is
  written.
\<close>

record world =
  os_abspath :: "pystr \<Rightarrow> pystr"
  os_join :: "pystr \<Rightarrow> pystr \<Rightarrow> pystr"
  os_exists :: "pystr \<Rightarrow> bool"
  os_isdir :: "pystr \<Rightarrow> bool"
  os_listdir :: "pystr \<Rightarrow> pystr list"
  os_getmtime :: "pystr \<Rightarrow> real option"
  nonempty_file :: "pystr \<Rightarrow> bool"
  header_duration :: "pystr \<Rightarrow> real option"
  clip_duration :: "pystr \<Rightarrow> py_error + real option"
  silence_mp3 :: "pystr \<Rightarrow> real \<Rightarrow> pystr option"
  silence_slide_duration :: real
  output_fps :: int
  py_int :: "pystr \<Rightarrow> int option"
  run_encoder ::
    "pystr \<Rightarrow> concat_line list \<Rightarrow> concat_line list \<Rightarrow> pystr \<Rightarrow> pystr \<Rightarrow> completed_process"
  text_codecs :: codecs

text \<open>
  \<open>header_duration\<close> is the value \<open>h * 3600 + mi * 60 + s\<close> parsed from the
  \<open>Duration:\<close> line that \<open>ffmpeg -i\<close> prints, \<open>None\<close> when the line is missing or the
  run raises. \<open>clip_duration\<close> is \<open>AudioFileClip(path).duration\<close>, which may be
  \<open>None\<close>, or the exception of the constructor. \<open>silence_mp3 path d\<close> is the
  \<open>ffmpeg\<close> run that writes \<open>d\<close> seconds of silence: \<open>None\<close> on exit code 0,
  otherwise the decoded error output. \<open>run_encoder\<close> is the encoder run for a container,
  the two descriptors, the filter graph and the output path; its other arguments are
  fixed codec settings.
\<close>

section \<open>Slide resolution\<close>

text \<open>The dataclass \<open>_SlideItem\<close>.\<close>

record slide_item =
  page_index :: int
  image_path :: pystr
  audio_path :: pystr
  script_text :: pystr
  duration :: real

text \<open>
  \<open>str.lower()\<close> on the letters \<open>A\<close> to \<open>Z\<close>. Other code points are left as they
  are; no code point outside ASCII lowers to a letter of \<open>.png\<close>, \<open>.mp3\<close>,
  \<open>webm\<close> or \<open>mp4\<close>, so the tests below come out as in Python.
\<close>

definition lower_ascii :: "nat \<Rightarrow> nat" where
  "lower_ascii c = (if 65 \<le> c \<and> c \<le> 90 then c + 32 else c)"

definition lower :: "pystr \<Rightarrow> pystr" where
  "lower s = map lower_ascii s"

definition endswith :: "pystr \<Rightarrow> pystr \<Rightarrow> bool" where
  "endswith s suffix = (length suffix \<le> length s \<and> drop (length s - length suffix) s = suffix)"

text \<open>\<open>f"{i:03d}"\<close>: at least three characters, zeros after the sign.\<close>

definition fmt03d :: "int \<Rightarrow> pystr" where
  "fmt03d i =
     (if i < 0 then 45 # replicate (2 - length (digits (nat (- i)))) 48 @ digits (nat (- i))
      else replicate (3 - length (digits (nat i))) 48 @ digits (nat i))"

definition select_temp_dir :: "world \<Rightarrow> pystr \<Rightarrow> pystr \<Rightarrow> pystr option \<Rightarrow> pystr" where
  "select_temp_dir w output_dir output_name temp_subdir =
     (let base = os_join w output_dir (lit ''temp'');
          cand2 = os_join w base output_name
      in case (case temp_subdir of
                 None \<Rightarrow> None
               | Some sub \<Rightarrow>
                   if sub \<noteq> [] \<and> os_isdir w (os_join w base sub)
                   then Some (os_join w base sub) else None) of
           Some cand \<Rightarrow> cand
         | None \<Rightarrow> if os_isdir w cand2 then cand2 else base)"

text \<open>
  \<open>Path(f).stem\<close> for a directory entry \<open>f\<close>: the name up to its last dot, when that dot
  is neither the first nor the last character.
\<close>

definition rfind_dot :: "pystr \<Rightarrow> nat option" where
  "rfind_dot f =
     (case dropWhile (\<lambda>c. c \<noteq> 46) (rev f) of [] \<Rightarrow> None | c # r \<Rightarrow> Some (length r))"

definition path_stem :: "pystr \<Rightarrow> pystr" where
  "path_stem f =
     (case rfind_dot f of
        None \<Rightarrow> f
      | Some i \<Rightarrow> if 0 < i \<and> i < length f - 1 then take i f else f)"

text \<open>
  \<open>_parse_slide_index_from_stem\<close>: \<open>re.match\<close> of \<open>slide\<close>, an optional \<open>_\<close> or
  \<open>-\<close>, one or more digits and the end of the string, where \<open>$\<close> also matches before a
  final newline. The digits are the code points 48 to 57; the other decimal digits of
  Unicode, which \<open>\d\<close> accepts too, are outside the model.
\<close>

definition is_digit :: "nat \<Rightarrow> bool" where
  "is_digit c = (48 \<le> c \<and> c \<le> 57)"

definition int_of_digits :: "pystr \<Rightarrow> int" where
  "int_of_digits ds = foldl (\<lambda>a c. 10 * a + int (c - 48)) 0 ds"

definition parse_slide_index_from_stem :: "pystr \<Rightarrow> int option" where
  "parse_slide_index_from_stem stem =
     (if take 5 stem = lit ''slide'' then
        (let rest = drop 5 stem;
             rest1 = (case rest of
                        [] \<Rightarrow> []
                      | c # cs \<Rightarrow> if c = 95 \<or> c = 45 then cs else rest);
             ds = takeWhile is_digit rest1;
             tail = dropWhile is_digit rest1
         in if ds \<noteq> [] \<and> (tail = [] \<or> tail = [10]) then Some (int_of_digits ds) else None)
      else None)"

text \<open>
  \<open>_pick_newest\<close>. \<open>pick_loop\<close> is the \<open>for p in paths\<close> loop with the state
  \<open>best\<close>, \<open>best_t\<close>; \<open>paths[0]\<close> on an empty list raises \<open>IndexError\<close>.
\<close>

fun pick_loop :: "(pystr \<Rightarrow> real option) \<Rightarrow> pystr list \<Rightarrow> pystr \<Rightarrow> real \<Rightarrow> pystr" where
  "pick_loop getmtime [] best best_t = best"
| "pick_loop getmtime (p # ps) best best_t =
     (let t = (case getmtime p of Some x \<Rightarrow> x | None \<Rightarrow> - 1)
      in if best_t < t then pick_loop getmtime ps p t
         else pick_loop getmtime ps best best_t)"

definition pick_newest :: "(pystr \<Rightarrow> real option) \<Rightarrow> pystr list \<Rightarrow> py_error + pystr" where
  "pick_newest getmtime paths =
     (case paths of
        [] \<Rightarrow> Inl IndexError
      | p0 # rest \<Rightarrow>
          if length paths = 1 then Inr p0
          else Inr (pick_loop getmtime paths p0 (- 1)))"

text \<open>
  The index under which a \<open>.png\<close> entry is filed, or \<open>None\<close> when the loop skips it:
  no slide number in the stem, or a number at or above \<open>slides_count\<close>.
\<close>

definition slide_png_index :: "int option \<Rightarrow> pystr \<Rightarrow> int option" where
  "slide_png_index slides_count f =
     (case parse_slide_index_from_stem (path_stem f) of
        None \<Rightarrow> None
      | Some idx \<Rightarrow>
          (case slides_count of
             None \<Rightarrow> Some idx
           | Some n \<Rightarrow> if n \<le> idx then None else Some idx))"

text \<open>
  The dict \<open>by_index\<close> as an association list in insertion order;
  \<open>by_index.setdefault(idx, []).append(path)\<close>.
\<close>

fun setdefault_append :: "(int \<times> pystr list) list \<Rightarrow> int \<Rightarrow> pystr \<Rightarrow> (int \<times> pystr list) list" where
  "setdefault_append [] idx path = [(idx, [path])]"
| "setdefault_append ((k, l) # rest) idx path =
     (if k = idx then (k, l @ [path]) # rest
      else (k, l) # setdefault_append rest idx path)"

fun by_index_loop ::
  "world \<Rightarrow> pystr \<Rightarrow> int option \<Rightarrow> pystr list \<Rightarrow> (int \<times> pystr list) list
     \<Rightarrow> (int \<times> pystr list) list" where
  "by_index_loop w temp_dir slides_count [] by_index = by_index"
| "by_index_loop w temp_dir slides_count (f # fs) by_index =
     (case slide_png_index slides_count f of
        None \<Rightarrow> by_index_loop w temp_dir slides_count fs by_index
      | Some idx \<Rightarrow>
          by_index_loop w temp_dir slides_count fs
            (setdefault_append by_index idx (os_join w temp_dir f)))"

text \<open>\<open>[_pick_newest(by_index[i]) for i in image_indices]\<close>.\<close>

fun pick_all ::
  "world \<Rightarrow> (int \<times> pystr list) list \<Rightarrow> int list \<Rightarrow> py_error + pystr list" where
  "pick_all w by_index [] = Inr []"
| "pick_all w by_index (i # rest) =
     (case pick_newest (os_getmtime w) (case map_of by_index i of None \<Rightarrow> [] | Some l \<Rightarrow> l) of
        Inl e \<Rightarrow> Inl e
      | Inr p \<Rightarrow>
          (case pick_all w by_index rest of
             Inl e \<Rightarrow> Inl e
           | Inr ps \<Rightarrow> Inr (p # ps)))"

text \<open>\<open>_resolve_audio_path\<close>: the first of four candidate names that exists.\<close>

definition resolve_audio_path :: "world \<Rightarrow> pystr \<Rightarrow> int \<Rightarrow> pystr option" where
  "resolve_audio_path w temp_dir slide_index =
     find (os_exists w)
       [os_join w temp_dir (lit ''slide_'' @ fmt03d slide_index @ lit ''.mp3''),
        os_join w temp_dir (lit ''slide_'' @ str_int slide_index @ lit ''.mp3''),
        os_join w temp_dir (lit ''audio_'' @ fmt03d slide_index @ lit ''.mp3''),
        os_join w temp_dir (lit ''audio_'' @ str_int slide_index @ lit ''.mp3'')]"

section \<open>Slide durations\<close>

text \<open>
  \<open>_get_audio_duration_seconds\<close>: the header value when it is positive, otherwise
  \<open>float(clip.duration or 0)\<close> from the decoding probe, whose exception propagates.
\<close>

definition get_audio_duration_seconds :: "world \<Rightarrow> pystr \<Rightarrow> py_error + real" where
  "get_audio_duration_seconds w path =
     (let fallback = (case clip_duration w path of
                        Inl e \<Rightarrow> Inl e
                      | Inr None \<Rightarrow> Inr 0
                      | Inr (Some x) \<Rightarrow> Inr x)
      in case header_duration w path of
           Some dur \<Rightarrow> if 0 < dur then Inr dur else fallback
         | None \<Rightarrow> fallback)"

text \<open>\<open>_ensure_silence_mp3\<close>.\<close>

definition ensure_silence_mp3 :: "world \<Rightarrow> pystr \<Rightarrow> real \<Rightarrow> py_error + unit" where
  "ensure_silence_mp3 w path d =
     (if nonempty_file w path then Inr ()
      else
        (let d2 = (if d \<le> 0 then 0.01 else d)
         in case silence_mp3 w path d2 of
              None \<Rightarrow> Inr ()
            | Some msg \<Rightarrow> Inl (RuntimeError (lit ''Failed to generate silence mp3: '' @ msg))))"

text \<open>
  The duration of a slide as the loops of \<open>combine_audio_video\<close> compute it: the silence
  length, replaced by the probed length when the audio file exists and the probe does
  not raise.
\<close>

definition has_audio :: "world \<Rightarrow> pystr option \<Rightarrow> bool" where
  "has_audio w audio = (case audio of None \<Rightarrow> False | Some a \<Rightarrow> a \<noteq> [] \<and> os_exists w a)"

definition raw_duration :: "world \<Rightarrow> pystr option \<Rightarrow> real" where
  "raw_duration w audio =
     (case audio of
        None \<Rightarrow> silence_slide_duration w
      | Some a \<Rightarrow>
          if has_audio w audio then
            (case get_audio_duration_seconds w a of
               Inr d \<Rightarrow> d
             | Inl e \<Rightarrow> silence_slide_duration w)
          else silence_slide_duration w)"

text \<open>
  The body of both slide loops, from the duration to \<open>slides.append\<close>: \<open>audio\<close> is the
  audio path found for the slide, if any.
\<close>

definition make_slide ::
  "world \<Rightarrow> pystr \<Rightarrow> (int \<Rightarrow> pystr option) \<Rightarrow> pystr \<Rightarrow> pystr option \<Rightarrow> int
     \<Rightarrow> py_error + slide_item" where
  "make_slide w temp_dir script_data img_path audio slide_index =
     (let d = raw_duration w audio;
          script = (case script_data slide_index of None \<Rightarrow> [] | Some s \<Rightarrow> s)
      in if \<not> has_audio w audio then
           (let silence = os_join w temp_dir (lit ''_silence_'' @ fmt03d slide_index @ lit ''.mp3'')
            in case ensure_silence_mp3 w silence d of
                 Inl e \<Rightarrow> Inl e
               | Inr u \<Rightarrow>
                   Inr \<lparr>page_index = slide_index, image_path = img_path, audio_path = silence,
                        script_text = script, duration = d\<rparr>)
         else
           Inr \<lparr>page_index = slide_index, image_path = img_path,
                audio_path = (case audio of None \<Rightarrow> [] | Some a \<Rightarrow> a),
                script_text = script, duration = d\<rparr>)"

text \<open>The loop over \<open>zip(image_paths, image_indices)\<close>.\<close>

fun build_slides ::
  "world \<Rightarrow> pystr \<Rightarrow> (int \<Rightarrow> pystr option) \<Rightarrow> (pystr \<times> int) list \<Rightarrow> slide_item list
     \<Rightarrow> py_error + slide_item list" where
  "build_slides w temp_dir script_data [] slides = Inr slides"
| "build_slides w temp_dir script_data ((img_path, slide_index) # rest) slides =
     (case make_slide w temp_dir script_data img_path
             (resolve_audio_path w temp_dir slide_index) slide_index of
        Inl e \<Rightarrow> Inl e
      | Inr s \<Rightarrow> build_slides w temp_dir script_data rest (slides @ [s]))"

text \<open>
  The legacy loop over the sorted \<open>.png\<close> names. \<open>splitext_base\<close> is
  \<open>os.path.splitext(f)[0]\<close> for a directory entry, \<open>last_piece\<close> is
  \<open>base.split('_')[-1]\<close>; when \<open>int\<close> raises, the slide number is \<open>len(slides)\<close>.
\<close>

definition splitext_base :: "pystr \<Rightarrow> pystr" where
  "splitext_base f =
     (case rfind_dot f of
        None \<Rightarrow> f
      | Some i \<Rightarrow> if list_ex (\<lambda>c. c \<noteq> 46) (take i f) then take i f else f)"

definition last_piece :: "pystr \<Rightarrow> pystr" where
  "last_piece base = rev (takeWhile (\<lambda>c. c \<noteq> 95) (rev base))"

fun build_slides_legacy ::
  "world \<Rightarrow> pystr \<Rightarrow> (int \<Rightarrow> pystr option) \<Rightarrow> pystr list \<Rightarrow> pystr list \<Rightarrow> slide_item list
     \<Rightarrow> py_error + slide_item list" where
  "build_slides_legacy w temp_dir script_data mp3_files [] slides = Inr slides"
| "build_slides_legacy w temp_dir script_data mp3_files (img_file # rest) slides =
     (let base = splitext_base img_file;
          audio_file = base @ lit ''.mp3'';
          img_path = os_join w temp_dir img_file;
          audio = (if audio_file \<in> set mp3_files then Some (os_join w temp_dir audio_file)
                   else None);
          slide_index = (case py_int w (last_piece base) of
                           Some i \<Rightarrow> i
                         | None \<Rightarrow> int (length slides))
      in case make_slide w temp_dir script_data img_path audio slide_index of
           Inl e \<Rightarrow> Inl e
         | Inr s \<Rightarrow> build_slides_legacy w temp_dir script_data mp3_files rest (slides @ [s]))"

section \<open>Assembly: \<open>combine_audio_video\<close>\<close>

text \<open>
  The arguments of \<open>combine_audio_video\<close>. \<open>a_script_data\<close> is the dict
  \<open>script_data\<close> that the function builds from \<open>script_data_override\<close> or from the
  script CSV before the slide loops; building it is outside the model.
\<close>

record args =
  a_output_dir :: pystr
  a_resolution :: int
  a_output_name :: pystr
  a_subtitle :: bool
  a_slides_count :: "int option"
  a_temp_subdir :: "pystr option"
  a_output_format :: "pystr option"
  a_script_data :: "int \<Rightarrow> pystr option"

definition temp_dir_of :: "world \<Rightarrow> args \<Rightarrow> pystr" where
  "temp_dir_of w a = select_temp_dir w (a_output_dir a) (a_output_name a) (a_temp_subdir a)"

text \<open>
  The function from its first line to \<open>if not slides\<close>: the temp folder, the listing,
  the grouping by slide number or the legacy mode, and the slide loop.
\<close>

definition resolve_slides :: "world \<Rightarrow> args \<Rightarrow> py_error + slide_item list" where
  "resolve_slides w a =
     (let temp_dir = temp_dir_of w a
      in if \<not> os_exists w temp_dir
         then Inl (FileNotFoundError (lit ''temp folder not found: '' @ temp_dir))
         else
           (let all_files = os_listdir w temp_dir;
                png_files = filter (\<lambda>f. endswith (lower f) (lit ''.png'')) all_files;
                mp3_files = filter (\<lambda>f. endswith (lower f) (lit ''.mp3'')) all_files;
                by_index = by_index_loop w temp_dir (a_slides_count a) png_files []
            in if by_index \<noteq> [] then
                 (let image_indices = sort (map fst by_index)
                  in case pick_all w by_index image_indices of
                       Inl e \<Rightarrow> Inl e
                     | Inr image_paths \<Rightarrow>
                         if image_paths = []
                         then Inl (ValueError (lit ''No image files found in temp folder''))
                         else build_slides w temp_dir (a_script_data a)
                                (zip image_paths image_indices) [])
               else
                 (let image_files = sort png_files
                  in if image_files = []
                     then Inl (ValueError (lit ''No image files found in temp folder''))
                     else build_slides_legacy w temp_dir (a_script_data a) mp3_files
                            image_files [])))"

text \<open>
  The two renderers up to their return: the two descriptors, the filter graph, the
  encoder run and the check of its exit code. \<open>ex\<close> is \<open>os.path.exists\<close> at that
  moment; the requested width reaches the renderer through the environment variable
  \<open>OUTPUT_MAX_WIDTH\<close>, which \<open>combine_audio_video\<close> sets to \<open>str(resolution)\<close>.
\<close>

definition render_webm_with_ffmpeg ::
  "world \<Rightarrow> (pystr \<Rightarrow> bool) \<Rightarrow> int \<Rightarrow> slide_item list \<Rightarrow> pystr \<Rightarrow> pystr option
     \<Rightarrow> py_error + unit" where
  "render_webm_with_ffmpeg w ex max_w slides output_path subtitle_path =
     (case write_concat_list (os_abspath w) (map image_path slides)
             (Some (map duration slides)) of
        Inl e \<Rightarrow> Inl e
      | Inr video_list \<Rightarrow>
          (case write_concat_list (os_abspath w) (map audio_path slides) None of
             Inl e \<Rightarrow> Inl e
           | Inr audio_list \<Rightarrow>
               webm_check (text_codecs w)
                 (run_encoder w (lit ''webm'') video_list audio_list
                    (webm_vf (os_abspath w) ex (output_fps w) max_w subtitle_path)
                    output_path)))"

definition render_mp4_with_ffmpeg ::
  "world \<Rightarrow> (pystr \<Rightarrow> bool) \<Rightarrow> int \<Rightarrow> slide_item list \<Rightarrow> pystr \<Rightarrow> pystr option
     \<Rightarrow> py_error + unit" where
  "render_mp4_with_ffmpeg w ex max_w slides output_path subtitle_path =
     (case write_concat_list (os_abspath w) (map image_path slides)
             (Some (map duration slides)) of
        Inl e \<Rightarrow> Inl e
      | Inr video_list \<Rightarrow>
          (case write_concat_list (os_abspath w) (map audio_path slides) None of
             Inl e \<Rightarrow> Inl e
           | Inr audio_list \<Rightarrow>
               mp4_check (text_codecs w)
                 (run_encoder w (lit ''mp4'') video_list audio_list
                    (mp4_vf (os_abspath w) ex (output_fps w) max_w subtitle_path)
                    output_path)))"

text \<open>\<open>(output_format or "webm").lower().strip()\<close>.\<close>

definition output_fmt :: "pystr option \<Rightarrow> pystr" where
  "output_fmt output_format =
     strip (lower (case output_format of
                     None \<Rightarrow> lit ''webm''
                   | Some s \<Rightarrow> if s = [] then lit ''webm'' else s))"

text \<open>
  What the call does besides returning: the subtitle file it generates and the encoder
  runs it starts, in order.
\<close>

datatype effect =
    GenerateSubtitle pystr "event list"
  | Encode pystr pystr

definition slide_info_of :: "slide_item \<Rightarrow> slide_info" where
  "slide_info_of s = \<lparr>si_script = Some (script_text s), si_duration = Some (duration s)\<rparr>"

text \<open>
  \<open>combine_audio_video\<close>: the effects so far and the returned path or the exception
  raised.
\<close>

definition combine_audio_video :: "world \<Rightarrow> args \<Rightarrow> effect list \<times> (py_error + pystr)" where
  "combine_audio_video w a =
     (case resolve_slides w a of
        Inl e \<Rightarrow> ([], Inl e)
      | Inr slides \<Rightarrow>
          if slides = [] then ([], Inl (ValueError (lit ''No slides to process'')))
          else
            (let fmt = output_fmt (a_output_format a)
             in if fmt \<noteq> lit ''webm'' \<and> fmt \<noteq> lit ''mp4''
                then ([], Inl (ValueError (lit ''Unsupported output_format: ''
                                 @ (case a_output_format a of None \<Rightarrow> lit ''None'' | Some s \<Rightarrow> s))))
                else
                  (let output_path =
                         os_join w (a_output_dir a) (a_output_name a @ lit ''.'' @ fmt);
                       sub = os_join w (temp_dir_of w a)
                               (lit ''_subtitles_'' @ a_output_name a @ lit ''.ass'');
                       subtitle_path = (if a_subtitle a then Some sub else None);
                       fx = (if a_subtitle a
                             then [GenerateSubtitle sub
                                     (generate_ass_subtitle (map slide_info_of slides))]
                             else []);
                       ex = (if a_subtitle a then (os_exists w)(sub := True) else os_exists w);
                       rendered =
                         (if fmt = lit ''webm''
                          then render_webm_with_ffmpeg w ex (a_resolution a) slides
                                 output_path subtitle_path
                          else render_mp4_with_ffmpeg w ex (a_resolution a) slides
                                 output_path subtitle_path)
                   in case rendered of
                        Inl e \<Rightarrow> (fx @ [Encode fmt output_path], Inl e)
                      | Inr u \<Rightarrow> (fx @ [Encode fmt output_path], Inr output_path))))"

section \<open>Example worlds\<close>

text \<open>
  A small world for the examples: paths are joined with a slash, \<open>dirs\<close> are the
  directories that exist, \<open>files\<close> the entries of \<open>out/temp\<close>, \<open>mtimes\<close> their
  modification times, \<open>clip\<close> the length every decoding probe reports; the header probe
  finds nothing, every \<open>ffmpeg\<close> run succeeds and the silence length is 5 seconds.
\<close>

definition demo_world ::
  "pystr list \<Rightarrow> pystr list \<Rightarrow> (pystr \<times> real) list \<Rightarrow> real option \<Rightarrow> world" where
  "demo_world dirs files mtimes clip =
     \<lparr>os_abspath = id,
      os_join = (\<lambda>a b. a @ [47] @ b),
      os_exists = (\<lambda>p. p \<in> set dirs \<or> p \<in> set (map (\<lambda>f. lit ''out/temp/'' @ f) files)),
      os_isdir = (\<lambda>p. False),
      os_listdir = (\<lambda>d. if d = lit ''out/temp'' then files else []),
      os_getmtime = map_of mtimes,
      nonempty_file = (\<lambda>p. False),
      header_duration = (\<lambda>p. None),
      clip_duration = (\<lambda>p. Inr clip),
      silence_mp3 = (\<lambda>p d. None),
      silence_slide_duration = 5,
      output_fps = 30,
      py_int = (\<lambda>s. None),
      run_encoder = (\<lambda>c v a f out.
        \<lparr>returncode = 0, proc_stderr = Some [], proc_stdout = None\<rparr>),
      text_codecs = ascii_codecs\<rparr>"

definition no_scripts :: "int \<Rightarrow> pystr option" where
  "no_scripts i = None"

definition demo_args :: "pystr option \<Rightarrow> args" where
  "demo_args output_format =
     \<lparr>a_output_dir = lit ''out'', a_resolution = 1280, a_output_name = lit ''output'',
      a_subtitle = True, a_slides_count = None, a_temp_subdir = None,
      a_output_format = output_format, a_script_data = no_scripts\<rparr>"

section \<open>Properties of the concat descriptors\<close>

lemma write_loop_None:
  "write_loop ap None ips f = Inr (f @ map (\<lambda>ip. FileLine (q ap (snd ip))) ips)"
  by (induction ips arbitrary: f) auto

lemma write_loop_Some:
  "k + length ps \<le> length ds \<Longrightarrow>
   write_loop ap (Some ds) (enumerate k ps) f =
     Inr (f @ concat (map (\<lambda>ip. [FileLine (q ap (snd ip)),
                                   DurationLine (written_duration (ds ! fst ip))])
                          (enumerate k ps)))"
proof (induction ps arbitrary: k f)
  case Nil
  then show ?case by simp
next
  case (Cons p ps)
  from Cons.prems have lt: "k < length ds" and le: "Suc k + length ps \<le> length ds"
    by simp_all
  show ?case
    using Cons.IH [OF le] lt by (simp add: written_duration_def)
qed

lemma entries_pairs:
  "entries (concat (map (\<lambda>ip. [FileLine (g ip), DurationLine (h ip)]) ips) @ [FileLine x]) =
     map (\<lambda>ip. (g ip, Some (h ip))) ips @ [(x, None)]"
  by (induction ips) auto

lemma count_duration_lines:
  "length (filter is_duration_line
             (concat (map (\<lambda>ip. [FileLine (g ip), DurationLine (h ip)]) ips))) = length ips"
  by (induction ips) (simp_all add: is_duration_line_def)

lemma entries_files:
  "entries (map (\<lambda>p. FileLine (g p)) ps) = map (\<lambda>p. (g p, None)) ps"
proof (induction ps)
  case Nil
  then show ?case by simp
next
  case (Cons p ps)
  then show ?case by (cases ps) auto
qed

lemma write_concat_list_video:
  assumes "paths \<noteq> []" and "length paths \<le> length ds"
  shows "write_concat_list ap paths (Some ds) =
           Inr (concat (map (\<lambda>ip. [FileLine (q ap (snd ip)),
                                      DurationLine (written_duration (ds ! fst ip))])
                            (enumerate 0 paths))
                @ [FileLine (q ap (last paths))])"
  using assms write_loop_Some [of 0 paths ds ap "[]"]
  by (simp add: write_concat_list_def)

lemma write_concat_list_audio:
  "write_concat_list ap paths None = Inr (map (\<lambda>p. FileLine (q ap p)) paths)"
  by (simp add: write_concat_list_def write_loop_None map_snd_enumerate
      flip: map_map [of "\<lambda>p. FileLine (q ap p)" snd, unfolded comp_def])

text \<open>
  C1 (as amended). For a non-empty slide list with one duration per slide, the video
  descriptor is written without error; read as entries it holds one duration-carrying
  entry per slide, in order, each with the slide's quoted path and its duration (values
  \<open>\<le> 0\<close> written as \<open>0.01\<close>), followed by one terminal entry. So the entry count is
  the slide count plus one, the final two entries have the same file path, and the
  terminal entry carries no duration.
\<close>

theorem video_descriptor_repeat_terminal:
  assumes "paths \<noteq> []" and "length ds = length paths"
  shows "\<exists>ls. write_concat_list ap paths (Some ds) = Inr ls
           \<and> length (entries ls) = length paths + 1
           \<and> butlast (entries ls) =
                map (\<lambda>i. (q ap (paths ! i), Some (written_duration (ds ! i)))) [0..<length paths]
           \<and> fst (last (entries ls)) = fst (last (butlast (entries ls)))
           \<and> snd (last (entries ls)) = None
           \<and> length (filter is_duration_line ls) = length paths"
proof -
  let ?g = "\<lambda>ip::nat \<times> pystr. q ap (snd ip)"
  let ?h = "\<lambda>ip::nat \<times> pystr. written_duration (ds ! fst ip)"
  let ?body = "concat (map (\<lambda>ip. [FileLine (?g ip), DurationLine (?h ip)]) (enumerate 0 paths))"
  let ?ls = "?body @ [FileLine (q ap (last paths))]"
  have w: "write_concat_list ap paths (Some ds) = Inr ?ls"
    using assms by (simp add: write_concat_list_video)
  have e: "entries ?ls =
             map (\<lambda>ip. (?g ip, Some (?h ip))) (enumerate 0 paths) @ [(q ap (last paths), None)]"
    by (rule entries_pairs)
  have m: "map (\<lambda>ip. (?g ip, Some (?h ip))) (enumerate 0 paths) =
             map (\<lambda>i. (q ap (paths ! i), Some (written_duration (ds ! i)))) [0..<length paths]"
    by (rule nth_equalityI) (simp_all add: nth_enumerate_eq)
  have ne: "[0..<length paths] \<noteq> []"
    using assms(1) by simp
  have lastp: "last paths = paths ! (length paths - 1)"
    using assms(1) by (simp add: last_conv_nth)
  have l2: "fst (last (map (\<lambda>i. (q ap (paths ! i), Some (written_duration (ds ! i))))
                        [0..<length paths])) = q ap (last paths)"
    using ne assms(1) by (simp add: last_map lastp)
  have d2: "length (filter is_duration_line ?ls) = length paths"
    by (simp add: count_duration_lines is_duration_line_def)
  show ?thesis
    unfolding w using e m l2 d2 by simp
qed

theorem video_descriptor_repeat_terminal_witness:
  "\<exists>ls. write_concat_list id [lit ''a.png'', lit ''b.png''] (Some [2, 0]) = Inr ls
      \<and> entries ls = [(lit ''a.png'', Some 2), (lit ''b.png'', Some 0.01), (lit ''b.png'', None)]"
proof -
  have "[lit ''a.png'', lit ''b.png''] \<noteq> []"
    and "length [2, 0::real] = length [lit ''a.png'', lit ''b.png'']"
    by simp_all
  from video_descriptor_repeat_terminal [OF this, of id]
  show ?thesis
    by (simp add: write_concat_list_def q_def replace_char_def lit_def)
qed

text \<open>
  C1 as stated fails: for one slide the descriptor has two entries, not one.
\<close>

theorem video_descriptor_entry_count_counterexample:
  "write_concat_list id [lit ''a.png''] (Some [2]) =
     Inr [FileLine (lit ''a.png''), DurationLine 2, FileLine (lit ''a.png'')]
   \<and> length (entries [FileLine (lit ''a.png''), DurationLine 2, FileLine (lit ''a.png'')])
       \<noteq> length [lit ''a.png'']"
  by (simp add: write_concat_list_def q_def replace_char_def lit_def)

text \<open>
  C2. For every list of audio paths, the audio descriptor (durations \<open>None\<close>) is written
  without error and has exactly one line, and one entry, per audio path, in order; it has
  no duration line; and nothing is appended after the last path, so the final two entries
  differ whenever the last two audio paths do.
\<close>

theorem audio_descriptor_no_repeat:
  "\<exists>ls. write_concat_list ap paths None = Inr ls
      \<and> ls = map (\<lambda>p. FileLine (q ap p)) paths
      \<and> entries ls = map (\<lambda>p. (q ap p, None)) paths
      \<and> length (entries ls) = length paths
      \<and> filter is_duration_line ls = []
      \<and> (2 \<le> length paths \<and> q ap (last paths) \<noteq> q ap (last (butlast paths))
           \<longrightarrow> last (entries ls) \<noteq> last (butlast (entries ls)))"
proof -
  let ?ls = "map (\<lambda>p. FileLine (q ap p)) paths"
  have w: "write_concat_list ap paths None = Inr ?ls"
    by (rule write_concat_list_audio)
  have e: "entries ?ls = map (\<lambda>p. (q ap p, None)) paths"
    by (rule entries_files)
  have f: "filter is_duration_line ?ls = []"
    by (induction paths) (simp_all add: is_duration_line_def)
  have t: "last (map (\<lambda>p. (q ap p, None :: real option)) paths)
             \<noteq> last (butlast (map (\<lambda>p. (q ap p, None)) paths))"
    if "2 \<le> length paths" and "q ap (last paths) \<noteq> q ap (last (butlast paths))"
  proof -
    from that(1) have n1: "paths \<noteq> []" and n2: "butlast paths \<noteq> []"
      by (cases paths; cases "tl paths"; simp)+
    show ?thesis
      using n1 n2 that(2) by (simp add: last_map flip: map_butlast)
  qed
  show ?thesis
    unfolding w using e f t by simp
qed

theorem audio_descriptor_no_repeat_witness:
  "\<exists>ls. write_concat_list id [lit ''a.mp3'', lit ''b.mp3''] None = Inr ls
      \<and> entries ls = [(lit ''a.mp3'', None), (lit ''b.mp3'', None)]
      \<and> last (entries ls) \<noteq> last (butlast (entries ls))"
  using audio_descriptor_no_repeat [of id "[lit ''a.mp3'', lit ''b.mp3'']"]
  by (simp add: q_def replace_char_def lit_def)

section \<open>Properties of the caption segments\<close>

lemma concat_split:
  "concat (split_text acc s) = acc @ s"
  "concat (split_punct acc s) = acc @ s"
  by (induction acc s and acc s rule: split_text_split_punct.induct) auto

lemma concat_re_split: "concat (re_split s) = s"
  by (simp add: re_split_def concat_split)

lemma dropWhile_visible:
  "(\<exists>c \<in> set (dropWhile P s). \<not> P c) \<longleftrightarrow> (\<exists>c \<in> set s. \<not> P c)"
proof
  assume "\<exists>c \<in> set (dropWhile P s). \<not> P c"
  then show "\<exists>c \<in> set s. \<not> P c"
    by (meson set_dropWhileD)
next
  assume "\<exists>c \<in> set s. \<not> P c"
  then have ne: "dropWhile P s \<noteq> []"
    by (auto simp: dropWhile_eq_Nil_conv)
  then have "hd (dropWhile P s) \<in> set (dropWhile P s)" and "\<not> P (hd (dropWhile P s))"
    by (simp_all add: hd_dropWhile)
  then show "\<exists>c \<in> set (dropWhile P s). \<not> P c"
    by blast
qed

lemma strip_nonempty_iff: "strip s \<noteq> [] \<longleftrightarrow> (\<exists>c \<in> set s. \<not> is_space c)"
proof -
  have "strip s \<noteq> [] \<longleftrightarrow> (\<exists>c \<in> set (rev (dropWhile is_space s)). \<not> is_space c)"
    by (auto simp: strip_def dropWhile_eq_Nil_conv)
  also have "\<dots> \<longleftrightarrow> (\<exists>c \<in> set (dropWhile is_space s). \<not> is_space c)"
    by simp
  also have "\<dots> \<longleftrightarrow> (\<exists>c \<in> set s. \<not> is_space c)"
    by (rule dropWhile_visible)
  finally show ?thesis .
qed

lemma strip_idem_nonempty: "strip (strip s) \<noteq> [] \<longleftrightarrow> strip s \<noteq> []"
proof -
  have "strip (strip s) \<noteq> [] \<longleftrightarrow> (\<exists>c \<in> set (strip s). \<not> is_space c)"
    by (rule strip_nonempty_iff)
  also have "\<dots> \<longleftrightarrow> (\<exists>c \<in> set (dropWhile is_space (rev (dropWhile is_space s))). \<not> is_space c)"
    unfolding strip_def set_rev ..
  also have "\<dots> \<longleftrightarrow> (\<exists>c \<in> set (rev (dropWhile is_space s)). \<not> is_space c)"
    by (rule dropWhile_visible)
  also have "\<dots> \<longleftrightarrow> (\<exists>c \<in> set (dropWhile is_space s). \<not> is_space c)"
    unfolding set_rev ..
  also have "\<dots> \<longleftrightarrow> (\<exists>c \<in> set s. \<not> is_space c)"
    by (rule dropWhile_visible)
  also have "\<dots> \<longleftrightarrow> strip s \<noteq> []"
    by (rule strip_nonempty_iff [symmetric])
  finally show ?thesis .
qed

lemma merge_segments_Nil_iff: "merge_segments raw = [] \<longleftrightarrow> raw = []"
  by (induction raw rule: merge_segments.induct) auto

lemma merge_segments_visible:
  "\<forall>t \<in> set raw. strip t \<noteq> [] \<Longrightarrow> \<forall>t \<in> set (merge_segments raw). strip t \<noteq> []"
  by (induction raw rule: merge_segments.induct) (auto simp: strip_nonempty_iff)

lemma ratio_loop_texts: "map seg_text (ratio_loop n c ts) = ts"
  by (induction ts arbitrary: c) (auto simp: Let_def)

lemma ratio_loop_length: "length (ratio_loop n c ts) = length ts"
  by (induction ts arbitrary: c) (auto simp: Let_def)

lemma ratio_loop_nth:
  "i < length ts \<Longrightarrow>
     ratio_loop n c ts ! i =
       \<lparr>seg_text = ts ! i,
        start_ratio = real (c + sum_list (map length (take i ts))) / real n,
        end_ratio = real (c + sum_list (map length (take (Suc i) ts))) / real n\<rparr>"
proof (induction ts arbitrary: c i)
  case Nil
  then show ?case by simp
next
  case (Cons t ts)
  show ?case
  proof (cases i)
    case 0
    then show ?thesis by (simp add: Let_def)
  next
    case (Suc j)
    with Cons.prems have "j < length ts" by simp
    from Cons.IH [OF this, of "c + length t"] Suc
    show ?thesis by (simp add: Let_def add.assoc)
  qed
qed

lemma merged_of_visible: "\<forall>t \<in> set (merged_of script). strip t \<noteq> []"
  unfolding merged_of_def by (rule merge_segments_visible) simp

lemma merged_of_Nil_iff: "merged_of script = [] \<longleftrightarrow> strip script = []"
proof -
  have "merged_of script = [] \<longleftrightarrow> (\<forall>t \<in> set (re_split script). strip t = [])"
    by (simp add: merged_of_def merge_segments_Nil_iff filter_empty_conv)
  also have "\<dots> \<longleftrightarrow> (\<forall>t \<in> set (re_split script). \<forall>c \<in> set t. is_space c)"
    using strip_nonempty_iff by blast
  also have "\<dots> \<longleftrightarrow> (\<forall>c \<in> set (concat (re_split script)). is_space c)"
    by auto
  also have "\<dots> \<longleftrightarrow> strip script = []"
    using strip_nonempty_iff [of script] by (simp add: concat_re_split) blast
  finally show ?thesis .
qed

lemma merged_of_total_pos:
  assumes "merged_of script \<noteq> []"
  shows "0 < sum_list (map length (merged_of script))"
proof -
  from assms obtain t ts where m: "merged_of script = t # ts"
    by (cases "merged_of script") auto
  with merged_of_visible [of script] have "strip t \<noteq> []" by simp
  then have "t \<noteq> []" by (auto simp: strip_def)
  with m show ?thesis by simp
qed

lemma get_subtitle_segments_unfold:
  "get_subtitle_segments script =
     (if script = [] then []
      else if merged_of script = [] then []
      else if sum_list (map length (merged_of script)) = 0 then []
      else ratio_loop (sum_list (map length (merged_of script))) 0 (merged_of script))"
  unfolding get_subtitle_segments_def merged_of_def Let_def ..

lemma get_subtitle_segments_eq:
  "get_subtitle_segments script =
     (if strip script = [] then []
      else ratio_loop (sum_list (map length (merged_of script))) 0 (merged_of script))"
proof (cases "strip script = []")
  case True
  then have "merged_of script = []"
    by (simp only: merged_of_Nil_iff)
  then show ?thesis
    using True by (simp add: get_subtitle_segments_unfold)
next
  case False
  then have ne: "merged_of script \<noteq> []"
    by (simp only: merged_of_Nil_iff not_False_eq_True)
  from False have s: "script \<noteq> []"
    unfolding strip_def by auto
  from merged_of_total_pos [OF ne] have t: "sum_list (map length (merged_of script)) \<noteq> 0"
    by linarith
  show ?thesis
    using False ne s t by (auto simp: get_subtitle_segments_unfold)
qed

lemma ratio_loop_partition:
  assumes "ms \<noteq> []" and "n = sum_list (map length ms)" and "0 < n"
  shows "start_ratio (hd (ratio_loop n 0 ms)) = 0"
    and "end_ratio (last (ratio_loop n 0 ms)) = 1"
    and "\<And>i. Suc i < length ms \<Longrightarrow>
           start_ratio (ratio_loop n 0 ms ! Suc i) = end_ratio (ratio_loop n 0 ms ! i)"
    and "\<And>i. i < length ms \<Longrightarrow>
           end_ratio (ratio_loop n 0 ms ! i) - start_ratio (ratio_loop n 0 ms ! i)
             = real (length (ms ! i)) / real n"
proof -
  let ?r = "ratio_loop n 0 ms"
  have len: "length ?r = length ms"
    by (rule ratio_loop_length)
  have pos: "0 < length ms"
    using assms(1) by simp
  have rne: "?r \<noteq> []"
    using pos len by auto
  have "hd ?r = ?r ! 0"
    using rne by (rule hd_conv_nth)
  then show "start_ratio (hd ?r) = 0"
    using pos by (simp add: ratio_loop_nth)
  have "last ?r = ?r ! (length ms - 1)"
    using last_conv_nth [OF rne] len by simp
  then have e: "end_ratio (last ?r)
      = real (sum_list (map length (take (Suc (length ms - 1)) ms))) / real n"
    using pos by (simp add: ratio_loop_nth)
  have full: "take (Suc (length ms - 1)) ms = ms"
    using pos by simp
  have one: "real n / real n = 1"
    using assms(3) by simp
  show "end_ratio (last ?r) = 1"
    unfolding e full assms(2) [symmetric] by (rule one)
  show "start_ratio (?r ! Suc i) = end_ratio (?r ! i)" if "Suc i < length ms" for i
    using that by (simp add: ratio_loop_nth)
  show "end_ratio (?r ! i) - start_ratio (?r ! i) = real (length (ms ! i)) / real n"
    if "i < length ms" for i
  proof -
    have "take (Suc i) ms = take i ms @ [ms ! i]"
      using that by (rule take_Suc_conv_app_nth)
    then show ?thesis
      using that by (simp add: ratio_loop_nth add_divide_distrib)
  qed
qed

text \<open>
  C3. For every script, the caption segments of \<open>_get_subtitle_segments\<close> partition
  \<open>[0,1]\<close> contiguously: there is no segment exactly when the script is empty or
  white space only; otherwise the first segment starts at ratio 0, the last ends at ratio
  1, each segment starts where the previous one ends, every segment's text is non-empty
  after trimming, and each segment's share of \<open>[0,1]\<close> is its character count divided
  by the character count of all segments.
\<close>

theorem subtitle_segments_partition:
  assumes "segs = get_subtitle_segments script"
  shows "(segs = [] \<longleftrightarrow> strip script = [])
       \<and> (segs \<noteq> [] \<longrightarrow> start_ratio (hd segs) = 0 \<and> end_ratio (last segs) = 1)
       \<and> (\<forall>i. Suc i < length segs \<longrightarrow> start_ratio (segs ! Suc i) = end_ratio (segs ! i))
       \<and> (\<forall>s \<in> set segs. strip (seg_text s) \<noteq> [])
       \<and> (\<forall>s \<in> set segs.
             end_ratio s - start_ratio s
               = real (length (seg_text s)) / real (sum_list (map (\<lambda>t. length (seg_text t)) segs)))"
proof (cases "strip script = []")
  case True
  then have "segs = []"
    using assms by (simp add: get_subtitle_segments_eq)
  with True show ?thesis by simp
next
  case False
  let ?ms = "merged_of script"
  let ?n = "sum_list (map length ?ms)"
  have segs: "segs = ratio_loop ?n 0 ?ms"
    using assms False by (simp add: get_subtitle_segments_eq)
  have ne: "?ms \<noteq> []"
    using False by (simp add: merged_of_Nil_iff)
  have n: "0 < ?n"
    using ne by (rule merged_of_total_pos)
  have len: "length segs = length ?ms"
    unfolding segs by (rule ratio_loop_length)
  have texts: "map seg_text segs = ?ms"
    unfolding segs by (rule ratio_loop_texts)
  have total: "sum_list (map (\<lambda>t. length (seg_text t)) segs) = ?n"
    using arg_cong [OF texts, of "\<lambda>l. sum_list (map length l)"] by (simp add: comp_def)
  have c1: "segs \<noteq> []"
    using ne len by auto
  have c2: "start_ratio (hd segs) = 0" "end_ratio (last segs) = 1"
    unfolding segs using ratio_loop_partition(1,2) [OF ne refl n] by simp_all
  have c3: "start_ratio (segs ! Suc i) = end_ratio (segs ! i)" if "Suc i < length segs" for i
    unfolding segs using that ratio_loop_partition(3) [OF ne refl n, of i] len by simp
  have c4: "strip (seg_text s) \<noteq> []" if "s \<in> set segs" for s
  proof -
    from that have "seg_text s \<in> set (map seg_text segs)" by simp
    then show ?thesis
      unfolding texts using merged_of_visible by blast
  qed
  have c5: "end_ratio s - start_ratio s = real (length (seg_text s)) / real ?n"
    if "s \<in> set segs" for s
  proof -
    from that obtain i where i: "i < length segs" and s: "s = segs ! i"
      by (auto simp: in_set_conv_nth)
    have "seg_text s = ?ms ! i"
      using i s nth_map [of i segs seg_text] texts by simp
    moreover have "end_ratio s - start_ratio s = real (length (?ms ! i)) / real ?n"
      unfolding s segs using ratio_loop_partition(4) [OF ne refl n, of i] i len by simp
    ultimately show ?thesis by simp
  qed
  show ?thesis
    using False c1 c2 c3 c4 c5 total by simp
qed

theorem subtitle_segments_partition_witness:
  "get_subtitle_segments
     [20170, 22238, 12399, 12289, 65, 73, 12489, 12522, 12502, 12531, 38283, 30330,
      12364, 24517, 35201, 12394, 12398, 12363, 65311]
   = [\<lparr>seg_text = [20170, 22238, 12399, 12289], start_ratio = 0, end_ratio = 4 / 19\<rparr>,
      \<lparr>seg_text = [65, 73, 12489, 12522, 12502, 12531, 38283, 30330, 12364, 24517, 35201,
                    12394, 12398, 12363, 65311],
       start_ratio = 4 / 19, end_ratio = 1\<rparr>]
   \<and> strip [20170, 22238, 12399, 12289, 65, 73, 12489, 12522, 12502, 12531, 38283, 30330,
            12364, 24517, 35201, 12394, 12398, 12363, 65311] \<noteq> []
   \<and> end_ratio (last (get_subtitle_segments
        [20170, 22238, 12399, 12289, 65, 73, 12489, 12522, 12502, 12531, 38283, 30330,
         12364, 24517, 35201, 12394, 12398, 12363, 65311])) = 1
   \<and> get_subtitle_segments [32, 10, 12288] = []"
proof -
  let ?x = "[20170, 22238, 12399, 12289, 65, 73, 12489, 12522, 12502, 12531, 38283, 30330,
             12364, 24517, 35201, 12394, 12398, 12363, 65311] :: pystr"
  have ev: "get_subtitle_segments ?x
     = [\<lparr>seg_text = [20170, 22238, 12399, 12289], start_ratio = 0, end_ratio = 4 / 19\<rparr>,
        \<lparr>seg_text = [65, 73, 12489, 12522, 12502, 12531, 38283, 30330, 12364, 24517, 35201,
                      12394, 12398, 12363, 65311],
         start_ratio = 4 / 19, end_ratio = 1\<rparr>]"
    by (simp add: get_subtitle_segments_def re_split_def strip_def is_space_def is_punct_def
        match_punct_def Let_def)
  have sp: "strip [32, 10, 12288] = []"
    by (simp add: strip_def is_space_def)
  from subtitle_segments_partition [OF refl, of ?x]
    subtitle_segments_partition [OF refl, of "[32, 10, 12288]"] ev sp
  show ?thesis by simp
qed

section \<open>Properties of the subtitle timeline\<close>

lemma ratio_loop_share_sum:
  "sum_list (map (\<lambda>s. end_ratio s - start_ratio s) (ratio_loop n c ts))
     = real (sum_list (map length ts)) / real n"
  by (induction ts arbitrary: c) (simp_all add: Let_def add_divide_distrib)

lemma segments_cover:
  assumes "strip script \<noteq> []"
  shows "get_subtitle_segments script \<noteq> []"
    and "start_ratio (hd (get_subtitle_segments script)) = 0"
    and "end_ratio (last (get_subtitle_segments script)) = 1"
    and "sum_list (map (\<lambda>s. end_ratio s - start_ratio s) (get_subtitle_segments script)) = 1"
proof -
  let ?ms = "merged_of script"
  let ?n = "sum_list (map length ?ms)"
  have segs: "get_subtitle_segments script = ratio_loop ?n 0 ?ms"
    using assms by (simp add: get_subtitle_segments_eq)
  have ne: "?ms \<noteq> []"
    using assms by (simp add: merged_of_Nil_iff)
  have n: "0 < ?n"
    using ne by (rule merged_of_total_pos)
  have "length (get_subtitle_segments script) = length ?ms"
    unfolding segs by (rule ratio_loop_length)
  then show "get_subtitle_segments script \<noteq> []"
    using ne by auto
  show "start_ratio (hd (get_subtitle_segments script)) = 0"
    unfolding segs by (rule ratio_loop_partition(1) [OF ne refl n])
  show "end_ratio (last (get_subtitle_segments script)) = 1"
    unfolding segs by (rule ratio_loop_partition(2) [OF ne refl n])
  have "real ?n \<noteq> 0"
    using n by linarith
  then have "real ?n / real ?n = 1"
    by (rule divide_self)
  then show "sum_list (map (\<lambda>s. end_ratio s - start_ratio s) (get_subtitle_segments script)) = 1"
    unfolding segs ratio_loop_share_sum .
qed

lemma segments_of_blank: "strip script = [] \<Longrightarrow> get_subtitle_segments script = []"
  by (simp add: get_subtitle_segments_eq)

lemma seg_event_start: "ev_start (seg_event t d seg) = t + d * start_ratio seg"
  by (simp add: seg_event_def Let_def)

lemma seg_event_end:
  "ev_end (seg_event t d seg) =
     (if d * end_ratio seg - d * start_ratio seg < 0.15
      then ev_start (seg_event t d seg) + 0.15
      else t + d * end_ratio seg)"
  by (simp add: seg_event_def Let_def min_seg_def)

lemma seg_event_span:
  "ev_span (seg_event t d seg) = max (d * (end_ratio seg - start_ratio seg)) 0.15"
  by (simp add: ev_span_def seg_event_def Let_def min_seg_def max_def algebra_simps)

lemma slide_events_map:
  "slide_events t slide =
     map (seg_event t (slide_duration slide))
       (get_subtitle_segments (strip (case si_script slide of None \<Rightarrow> [] | Some s \<Rightarrow> s)))"
proof -
  let ?script = "strip (case si_script slide of None \<Rightarrow> [] | Some s \<Rightarrow> s)"
  show ?thesis
  proof (cases "?script = []")
    case True
    then show ?thesis
      by (simp add: slide_events_def Let_def get_subtitle_segments_def)
  next
    case False
    then show ?thesis
      by (simp add: slide_events_def Let_def)
  qed
qed

lemma ass_events_append:
  "ass_events t (pre @ rest) =
     ass_events t pre @ ass_events (t + sum_list (map slide_duration pre)) rest"
  by (induction pre arbitrary: t) (simp_all add: add.assoc)

lemma span_sum_lower:
  "d * sum_list (map (\<lambda>s. end_ratio s - start_ratio s) segs)
     \<le> sum_list (map ev_span (map (seg_event t d) segs))"
proof -
  have "sum_list (map (\<lambda>s. d * (end_ratio s - start_ratio s)) segs)
          \<le> sum_list (map (\<lambda>s. ev_span (seg_event t d s)) segs)"
    by (rule sum_list_mono) (simp add: seg_event_span)
  then show ?thesis
    by (simp add: sum_list_const_mult comp_def)
qed

text \<open>
  C4 (as amended). In the emitted timeline the captions of a slide are the events of its
  segments, placed at the slide's start offset (the sum of the durations of the slides
  before it). A caption starts at offset + duration * start ratio; when its scaled span
  is shorter than 0.15 seconds its end is its start + 0.15, otherwise its end is
  offset + duration * end ratio. When the trimmed script is not empty there is at least
  one caption, the first caption starts at the slide's start offset, the sum of the
  caption spans is at least the slide's duration, and the last caption ends at or after
  the slide's duration boundary: exactly at the boundary when its scaled span is at least
  0.15 seconds, and 0.15 seconds after its own start, past the boundary, otherwise.
\<close>

theorem caption_timeline_floor:
  assumes "t0 = sum_list (map slide_duration pre)"
    and "d = slide_duration slide"
    and "script = strip (case si_script slide of None \<Rightarrow> [] | Some s \<Rightarrow> s)"
    and "segs = get_subtitle_segments script"
    and "evs = slide_events t0 slide"
  shows "generate_ass_subtitle (pre @ slide # post)
           = generate_ass_subtitle pre @ evs @ ass_events (t0 + d) post
       \<and> length evs = length segs
       \<and> (\<forall>i < length segs.
             ev_start (evs ! i) = t0 + d * start_ratio (segs ! i)
           \<and> ev_end (evs ! i) =
               (if d * end_ratio (segs ! i) - d * start_ratio (segs ! i) < 0.15
                then ev_start (evs ! i) + 0.15
                else t0 + d * end_ratio (segs ! i)))
       \<and> (script \<noteq> [] \<longrightarrow>
             evs \<noteq> []
           \<and> ev_start (hd evs) = t0
           \<and> d \<le> sum_list (map ev_span evs)
           \<and> t0 + d \<le> ev_end (last evs)
           \<and> (ev_end (last evs) =
                (if d * (1 - start_ratio (last segs)) < 0.15
                 then ev_start (last evs) + 0.15 else t0 + d)))"
proof -
  have evs: "evs = map (seg_event t0 d) segs"
    unfolding assms(5) assms(4) assms(3) assms(2) by (rule slide_events_map)
  have g: "generate_ass_subtitle (pre @ slide # post)
             = generate_ass_subtitle pre @ evs @ ass_events (t0 + d) post"
    unfolding generate_ass_subtitle_def
    by (simp add: ass_events_append assms(1) assms(2) assms(5))
  have len: "length evs = length segs"
    unfolding evs by simp
  have each: "ev_start (evs ! i) = t0 + d * start_ratio (segs ! i)
           \<and> ev_end (evs ! i) =
               (if d * end_ratio (segs ! i) - d * start_ratio (segs ! i) < 0.15
                then ev_start (evs ! i) + 0.15
                else t0 + d * end_ratio (segs ! i))" if "i < length segs" for i
    unfolding evs using that seg_event_end [of t0 d "segs ! i"]
    by (simp add: seg_event_start)
  have edge: "evs \<noteq> []
           \<and> ev_start (hd evs) = t0
           \<and> d \<le> sum_list (map ev_span evs)
           \<and> t0 + d \<le> ev_end (last evs)
           \<and> (ev_end (last evs) =
                (if d * (1 - start_ratio (last segs)) < 0.15
                 then ev_start (last evs) + 0.15 else t0 + d))" if ne: "script \<noteq> []"
  proof -
    have vis: "strip script \<noteq> []"
      using ne unfolding assms(3) strip_idem_nonempty .
    note c = segments_cover [OF vis, folded assms(4)]
    have e1: "evs \<noteq> []"
      using c(1) evs by simp
    have e2: "ev_start (hd evs) = t0"
      unfolding evs using c(1,2) by (simp add: hd_map seg_event_start)
    have e3: "d \<le> sum_list (map ev_span evs)"
      unfolding evs using span_sum_lower [of d segs t0] c(4) by simp
    have l: "last evs = seg_event t0 d (last segs)"
      unfolding evs using c(1) by (simp add: last_map)
    have e5: "ev_end (last evs) =
                (if d * (1 - start_ratio (last segs)) < 0.15
                 then ev_start (last evs) + 0.15 else t0 + d)"
      unfolding l using seg_event_end [of t0 d "last segs"] c(3)
      by (simp add: algebra_simps)
    have e4: "t0 + d \<le> ev_end (last evs)"
      unfolding e5 unfolding l by (simp add: seg_event_start algebra_simps)
    show ?thesis
      using e1 e2 e3 e4 e5 by blast
  qed
  show ?thesis
    using g len each edge by blast
qed

theorem caption_timeline_floor_witness:
  "generate_ass_subtitle
     [\<lparr>si_script = Some [], si_duration = Some 5\<rparr>,
      \<lparr>si_script = Some [97, 33, 98], si_duration = Some 0.3\<rparr>]
   = [\<lparr>ev_start = 5, ev_end = 5.2, ev_text = [97, 33]\<rparr>,
      \<lparr>ev_start = 5.2, ev_end = 5.35, ev_text = [98]\<rparr>]
   \<and> ev_end (last (slide_events 5 \<lparr>si_script = Some [97, 33, 98], si_duration = Some 0.3\<rparr>))
       = ev_start (last (slide_events 5
           \<lparr>si_script = Some [97, 33, 98], si_duration = Some 0.3\<rparr>)) + 0.15
   \<and> (0.3::real) \<le> sum_list (map ev_span (slide_events 5
           \<lparr>si_script = Some [97, 33, 98], si_duration = Some 0.3\<rparr>))"
proof -
  let ?a = "\<lparr>si_script = Some [], si_duration = Some 5\<rparr>"
  let ?b = "\<lparr>si_script = Some [97, 33, 98], si_duration = Some 0.3\<rparr>"
  have st: "strip [97, 33, 98] = [97, 33, 98]"
    by (simp add: strip_def is_space_def)
  have sg: "get_subtitle_segments [97, 33, 98]
      = [\<lparr>seg_text = [97, 33], start_ratio = 0, end_ratio = 2 / 3\<rparr>,
         \<lparr>seg_text = [98], start_ratio = 2 / 3, end_ratio = 1\<rparr>]"
    by (simp add: get_subtitle_segments_def re_split_def strip_def is_space_def is_punct_def
        match_punct_def Let_def)
  have ev: "slide_events 5 ?b
      = [\<lparr>ev_start = 5, ev_end = 5.2, ev_text = [97, 33]\<rparr>,
         \<lparr>ev_start = 5.2, ev_end = 5.35, ev_text = [98]\<rparr>]"
    by (simp add: slide_events_def slide_duration_def st sg seg_event_def min_seg_def
        replace_char_def Let_def)
  have pre: "generate_ass_subtitle [?a] = []"
    by (simp add: generate_ass_subtitle_def slide_events_def strip_def Let_def)
  have t: "(5::real) = sum_list (map slide_duration [?a])"
    by (simp add: slide_duration_def)
  from caption_timeline_floor [OF t refl refl refl refl, of ?b "[]"]
  show ?thesis
    by (simp add: ev pre st sg slide_duration_def)
qed

text \<open>
  C4 as stated fails: a one-character script on a slide of 0.1 seconds gives one caption
  from 0 to 0.15, which does not end at the slide's duration boundary 0.1.
\<close>

theorem caption_end_boundary_counterexample:
  "generate_ass_subtitle [\<lparr>si_script = Some [97], si_duration = Some 0.1\<rparr>]
     = [\<lparr>ev_start = 0, ev_end = 0.15, ev_text = [97]\<rparr>]
   \<and> ev_end (last (generate_ass_subtitle [\<lparr>si_script = Some [97], si_duration = Some 0.1\<rparr>]))
       \<noteq> 0 + 0.1"
proof -
  have sg: "get_subtitle_segments [97] = [\<lparr>seg_text = [97], start_ratio = 0, end_ratio = 1\<rparr>]"
    by (simp add: get_subtitle_segments_def re_split_def strip_def is_space_def is_punct_def
        match_punct_def Let_def)
  have st: "strip [97] = [97]"
    by (simp add: strip_def is_space_def)
  have ev: "generate_ass_subtitle [\<lparr>si_script = Some [97], si_duration = Some 0.1\<rparr>]
     = [\<lparr>ev_start = 0, ev_end = 0.15, ev_text = [97]\<rparr>]"
    by (simp add: generate_ass_subtitle_def slide_events_def slide_duration_def st sg
        seg_event_def min_seg_def replace_char_def Let_def)
  show ?thesis
    unfolding ev by simp
qed

section \<open>Properties of the filter graph\<close>

lemma colons_escaped_after_replace:
  "colons_escaped_after prev (replace_char 58 [92, 58] s)"
  by (induction s arbitrary: prev) (simp_all add: replace_char_def)

lemma colons_escaped_abs_sub: "colons_escaped (abs_sub ap p)"
  unfolding colons_escaped_def abs_sub_def by (rule colons_escaped_after_replace)

lemma vf_parts_same:
  "mp4_vf_parts ap ex fps max_w sp = webm_vf_parts ap ex fps max_w sp"
  unfolding mp4_vf_parts_def webm_vf_parts_def ..

lemma webm_vf_parts_with:
  assumes "has_subtitles ex (Some p)"
  shows "webm_vf_parts ap ex fps max_w (Some p) =
     [lit ''fps='' @ str_int fps,
      lit ''scale='' @ str_int max_w @ lit '':'' @ str_int (target_height max_w)
        @ lit '':force_original_aspect_ratio=decrease:flags=fast_bilinear'',
      lit ''pad='' @ str_int max_w @ lit '':'' @ str_int (target_height max_w)
        @ lit '':(ow-iw)/2:(oh-ih)/2:color=0x303030'',
      lit ''subtitles='' @ [39] @ abs_sub ap p @ [39],
      lit ''format=yuv420p'']"
  using assms by (simp add: webm_vf_parts_def Let_def)

lemma webm_vf_parts_without:
  assumes "\<not> has_subtitles ex sp"
  shows "webm_vf_parts ap ex fps max_w sp =
     [lit ''scale='' @ str_int max_w @ lit '':'' @ str_int (target_height max_w)
        @ lit '':force_original_aspect_ratio=decrease:flags=fast_bilinear'',
      lit ''pad='' @ str_int max_w @ lit '':'' @ str_int (target_height max_w)
        @ lit '':(ow-iw)/2:(oh-ih)/2:color=0x303030'',
      lit ''format=yuv420p'']"
  using assms by (simp add: webm_vf_parts_def Let_def)

text \<open>
  C6. For every encode invocation, of either renderer, the filter list is, in this order:
  the \<open>fps\<close> filter first if and only if a subtitle file is present (a non-empty path
  that exists), then the aspect-preserving \<open>scale\<close>, then the \<open>pad\<close> to the target
  canvas, then the \<open>subtitles\<close> filter if and only if a subtitle file is present, with a
  path in which every colon is escaped by a backslash, and \<open>format=yuv420p\<close> last. The
  filter graph string is this list joined by commas.
\<close>

theorem filter_graph_order:
  "mp4_vf_parts ap ex fps max_w sp = webm_vf_parts ap ex fps max_w sp
   \<and> webm_vf ap ex fps max_w sp = join [44] (webm_vf_parts ap ex fps max_w sp)
   \<and> mp4_vf ap ex fps max_w sp = join [44] (webm_vf_parts ap ex fps max_w sp)
   \<and> (has_subtitles ex sp \<longleftrightarrow> (\<exists>p. sp = Some p \<and> p \<noteq> [] \<and> ex p))
   \<and> (\<forall>p. sp = Some p \<and> p \<noteq> [] \<and> ex p \<longrightarrow>
         webm_vf_parts ap ex fps max_w sp =
           [lit ''fps='' @ str_int fps,
            lit ''scale='' @ str_int max_w @ lit '':'' @ str_int (target_height max_w)
              @ lit '':force_original_aspect_ratio=decrease:flags=fast_bilinear'',
            lit ''pad='' @ str_int max_w @ lit '':'' @ str_int (target_height max_w)
              @ lit '':(ow-iw)/2:(oh-ih)/2:color=0x303030'',
            lit ''subtitles='' @ [39] @ abs_sub ap p @ [39],
            lit ''format=yuv420p'']
         \<and> colons_escaped (abs_sub ap p))
   \<and> (\<not> (\<exists>p. sp = Some p \<and> p \<noteq> [] \<and> ex p) \<longrightarrow>
         webm_vf_parts ap ex fps max_w sp =
           [lit ''scale='' @ str_int max_w @ lit '':'' @ str_int (target_height max_w)
              @ lit '':force_original_aspect_ratio=decrease:flags=fast_bilinear'',
            lit ''pad='' @ str_int max_w @ lit '':'' @ str_int (target_height max_w)
              @ lit '':(ow-iw)/2:(oh-ih)/2:color=0x303030'',
            lit ''format=yuv420p''])"
proof -
  have h: "has_subtitles ex sp \<longleftrightarrow> (\<exists>p. sp = Some p \<and> p \<noteq> [] \<and> ex p)"
    by (cases sp) (simp_all add: has_subtitles_def)
  have w: "webm_vf_parts ap ex fps max_w sp =
           [lit ''fps='' @ str_int fps,
            lit ''scale='' @ str_int max_w @ lit '':'' @ str_int (target_height max_w)
              @ lit '':force_original_aspect_ratio=decrease:flags=fast_bilinear'',
            lit ''pad='' @ str_int max_w @ lit '':'' @ str_int (target_height max_w)
              @ lit '':(ow-iw)/2:(oh-ih)/2:color=0x303030'',
            lit ''subtitles='' @ [39] @ abs_sub ap p @ [39],
            lit ''format=yuv420p'']"
    if "sp = Some p \<and> p \<noteq> [] \<and> ex p" for p
  proof -
    from that have "has_subtitles ex (Some p)"
      by (simp add: has_subtitles_def)
    from webm_vf_parts_with [OF this] that show ?thesis
      by simp
  qed
  have n: "webm_vf_parts ap ex fps max_w sp =
           [lit ''scale='' @ str_int max_w @ lit '':'' @ str_int (target_height max_w)
              @ lit '':force_original_aspect_ratio=decrease:flags=fast_bilinear'',
            lit ''pad='' @ str_int max_w @ lit '':'' @ str_int (target_height max_w)
              @ lit '':(ow-iw)/2:(oh-ih)/2:color=0x303030'',
            lit ''format=yuv420p'']"
    if "\<not> (\<exists>p. sp = Some p \<and> p \<noteq> [] \<and> ex p)"
    using that h by (intro webm_vf_parts_without) simp
  show ?thesis
    using vf_parts_same [of ap ex fps max_w sp] h w n colons_escaped_abs_sub
    by (simp add: webm_vf_def mp4_vf_def)
qed

theorem filter_graph_order_witness:
  "webm_vf id (\<lambda>p. True) 30 1280 (Some (lit ''C:'' @ [92] @ lit ''t'' @ [92] @ lit ''s.ass''))
     = lit ''fps=30,scale=1280:720:force_original_aspect_ratio=decrease:flags=fast_bilinear,''
       @ lit ''pad=1280:720:(ow-iw)/2:(oh-ih)/2:color=0x303030,''
       @ lit ''subtitles='' @ [39] @ lit ''C'' @ [92] @ lit '':/t/s.ass'' @ [39] @ lit '',format=yuv420p''
   \<and> mp4_vf id (\<lambda>p. True) 30 1280 None
     = lit ''scale=1280:720:force_original_aspect_ratio=decrease:flags=fast_bilinear,''
       @ lit ''pad=1280:720:(ow-iw)/2:(oh-ih)/2:color=0x303030,format=yuv420p''"
proof -
  have s: "str_int 30 = lit ''30''" "str_int 1280 = lit ''1280''" "str_int 720 = lit ''720''"
    by (simp_all add: str_int_def digits.simps lit_def)
  have t: "target_height 1280 = 720"
    by (simp add: target_height_def Let_def)
  have c: "(lit ''C:'' @ [92] @ lit ''t'' @ [92] @ lit ''s.ass'') \<noteq> []"
    by (simp add: lit_def)
  from filter_graph_order [of id "\<lambda>p. True" 30 1280 "Some (lit ''C:'' @ [92] @ lit ''t'' @ [92] @ lit ''s.ass'')"]
    filter_graph_order [of id "\<lambda>p. True" 30 1280 None] c
  show ?thesis
    by (simp add: s t lit_def abs_sub_def replace_char_def)
qed

section \<open>Properties of the target canvas\<close>









section \<open>Properties of the encoder failure\<close>

lemma contains_append: "contains (a @ t @ b) t"
proof -
  have "length a \<in> set [0..<Suc (length (a @ t @ b))]"
    by simp
  moreover have "take (length t) (drop (length a) (a @ t @ b)) = t"
    by simp
  ultimately show ?thesis
    unfolding contains_def list_ex_iff by blast
qed

lemma safe_decode_chain:
  "decode_utf8 c b = Some s \<Longrightarrow> safe_decode c b = s"
  "decode_utf8 c b = None \<Longrightarrow> decode_cp932 c b = Some s \<Longrightarrow> safe_decode c b = s"
  "decode_utf8 c b = None \<Longrightarrow> decode_cp932 c b = None \<Longrightarrow>
     safe_decode c b = decode_utf8_replace c b"
  by (simp_all add: safe_decode_def)

lemma strip_no_such_filter: "strip no_such_filter = no_such_filter"
  by (simp add: no_such_filter_def strip_def is_space_def lit_def)

lemma str_int_1: "str_int 1 = lit ''1''"
  by (simp add: str_int_def digits.simps lit_def)

text \<open>
  C7 (as amended). For every encoder run of either renderer: a zero exit code returns
  normally; a non-zero exit code raises exactly one \<open>RuntimeError\<close> whose message is
  \<open>FFmpeg failed (code=<exit code>): \<close> followed by the diagnostic stream, decoded by
  the chain UTF-8, then cp932, then UTF-8 with replacement, with leading and trailing
  white space stripped (for WebM, the decoded standard output takes the place of an empty
  decoded diagnostic stream). In particular exit code 1 with the diagnostic text
  \<open>no such filter: 'subtitles'\<close> gives a message that contains that text verbatim.
\<close>

theorem encoder_failure_message:
  "(returncode proc = 0 \<longrightarrow> webm_check c proc = Inr () \<and> mp4_check c proc = Inr ())
   \<and> (returncode proc \<noteq> 0 \<longrightarrow>
         mp4_check c proc =
           Inl (RuntimeError (lit ''FFmpeg failed (code='' @ str_int (returncode proc)
                  @ lit ''): '' @ strip (safe_decode c (or_empty (proc_stderr proc)))))
       \<and> webm_check c proc =
           Inl (RuntimeError (lit ''FFmpeg failed (code='' @ str_int (returncode proc)
                  @ lit ''): ''
                  @ strip (if safe_decode c (or_empty (proc_stderr proc)) \<noteq> []
                           then safe_decode c (or_empty (proc_stderr proc))
                           else safe_decode c (or_empty (proc_stdout proc))))))
   \<and> (\<forall>s. decode_utf8 c b = Some s \<longrightarrow> safe_decode c b = s)
   \<and> (\<forall>s. decode_utf8 c b = None \<and> decode_cp932 c b = Some s \<longrightarrow> safe_decode c b = s)
   \<and> (decode_utf8 c b = None \<and> decode_cp932 c b = None \<longrightarrow>
         safe_decode c b = decode_utf8_replace c b)
   \<and> (\<forall>e. returncode proc = 1 \<and> proc_stderr proc = Some e
            \<and> decode_utf8 c e = Some no_such_filter \<longrightarrow>
         mp4_check c proc =
           Inl (RuntimeError (lit ''FFmpeg failed (code=1): '' @ no_such_filter))
       \<and> webm_check c proc =
           Inl (RuntimeError (lit ''FFmpeg failed (code=1): '' @ no_such_filter))
       \<and> contains (lit ''FFmpeg failed (code=1): '' @ no_such_filter) no_such_filter)"
proof -
  have ok: "webm_check c proc = Inr () \<and> mp4_check c proc = Inr ()" if "returncode proc = 0"
    using that by (simp add: webm_check_def mp4_check_def)
  have bad: "mp4_check c proc =
           Inl (RuntimeError (lit ''FFmpeg failed (code='' @ str_int (returncode proc)
                  @ lit ''): '' @ strip (safe_decode c (or_empty (proc_stderr proc)))))
       \<and> webm_check c proc =
           Inl (RuntimeError (lit ''FFmpeg failed (code='' @ str_int (returncode proc)
                  @ lit ''): ''
                  @ strip (if safe_decode c (or_empty (proc_stderr proc)) \<noteq> []
                           then safe_decode c (or_empty (proc_stderr proc))
                           else safe_decode c (or_empty (proc_stdout proc)))))"
    if "returncode proc \<noteq> 0"
    using that by (simp add: webm_check_def mp4_check_def Let_def)
  have scen: "mp4_check c proc =
           Inl (RuntimeError (lit ''FFmpeg failed (code=1): '' @ no_such_filter))
       \<and> webm_check c proc =
           Inl (RuntimeError (lit ''FFmpeg failed (code=1): '' @ no_such_filter))
       \<and> contains (lit ''FFmpeg failed (code=1): '' @ no_such_filter) no_such_filter"
    if h: "returncode proc = 1 \<and> proc_stderr proc = Some e
            \<and> decode_utf8 c e = Some no_such_filter" for e
  proof -
    have d: "safe_decode c (or_empty (proc_stderr proc)) = no_such_filter"
      using h by (simp add: or_empty_def safe_decode_chain(1))
    have ne: "no_such_filter \<noteq> []"
      by (simp add: no_such_filter_def lit_def)
    have pre: "lit ''FFmpeg failed (code='' @ str_int 1 @ lit ''): '' @ x
                 = lit ''FFmpeg failed (code=1): '' @ x" for x
      unfolding str_int_1 by (simp add: lit_def)
    have nz: "returncode proc \<noteq> 0"
      using h by simp
    have r: "returncode proc = 1"
      using h by simp
    have m: "mp4_check c proc =
           Inl (RuntimeError (lit ''FFmpeg failed (code=1): '' @ no_such_filter))"
      using bad [OF nz] by (simp add: r d strip_no_such_filter pre)
    have w: "webm_check c proc =
           Inl (RuntimeError (lit ''FFmpeg failed (code=1): '' @ no_such_filter))"
      using bad [OF nz] by (simp add: r d ne strip_no_such_filter pre)
    have k: "contains (lit ''FFmpeg failed (code=1): '' @ no_such_filter) no_such_filter"
      using contains_append [of "lit ''FFmpeg failed (code=1): ''" no_such_filter "[]"]
      by simp
    show ?thesis
      using m w k by blast
  qed
  show ?thesis
    using ok bad scen safe_decode_chain [of c b] by blast
qed

theorem encoder_failure_message_witness:
  "mp4_check ascii_codecs
     \<lparr>returncode = 1, proc_stderr = Some no_such_filter, proc_stdout = None\<rparr>
     = Inl (RuntimeError (lit ''FFmpeg failed (code=1): '' @ no_such_filter))
   \<and> webm_check ascii_codecs
     \<lparr>returncode = 1, proc_stderr = Some no_such_filter, proc_stdout = None\<rparr>
     = Inl (RuntimeError (lit ''FFmpeg failed (code=1): '' @ no_such_filter))
   \<and> contains (lit ''FFmpeg failed (code=1): '' @ no_such_filter) no_such_filter"
proof -
  let ?p = "\<lparr>returncode = 1, proc_stderr = Some no_such_filter, proc_stdout = None\<rparr>"
  have d: "returncode ?p = 1 \<and> proc_stderr ?p = Some no_such_filter
           \<and> decode_utf8 ascii_codecs no_such_filter = Some no_such_filter"
    by (simp add: ascii_codecs_def decode_ascii_def no_such_filter_def lit_def)
  from encoder_failure_message [of ?p ascii_codecs "[]"]
  have "\<forall>e. returncode ?p = 1 \<and> proc_stderr ?p = Some e
            \<and> decode_utf8 ascii_codecs e = Some no_such_filter \<longrightarrow>
         mp4_check ascii_codecs ?p =
           Inl (RuntimeError (lit ''FFmpeg failed (code=1): '' @ no_such_filter))
       \<and> webm_check ascii_codecs ?p =
           Inl (RuntimeError (lit ''FFmpeg failed (code=1): '' @ no_such_filter))
       \<and> contains (lit ''FFmpeg failed (code=1): '' @ no_such_filter) no_such_filter"
    by (elim conjE)
  with d show ?thesis
    by blast
qed

text \<open>
  C7 as stated fails: with the diagnostic stream \<open>x\<close> followed by a newline, which
  decodes to itself, the message ends with \<open>x\<close> and does not contain the decoded
  stream.
\<close>

theorem encoder_message_stripped_counterexample:
  "safe_decode ascii_codecs [120, 10] = [120, 10]
   \<and> mp4_check ascii_codecs \<lparr>returncode = 1, proc_stderr = Some [120, 10], proc_stdout = None\<rparr>
       = Inl (RuntimeError (lit ''FFmpeg failed (code=1): x''))
   \<and> webm_check ascii_codecs \<lparr>returncode = 1, proc_stderr = Some [120, 10], proc_stdout = None\<rparr>
       = Inl (RuntimeError (lit ''FFmpeg failed (code=1): x''))
   \<and> \<not> contains (lit ''FFmpeg failed (code=1): x'') [120, 10]"
proof -
  have d: "safe_decode ascii_codecs [120, 10] = [120, 10]"
    by (simp add: safe_decode_def ascii_codecs_def decode_ascii_def)
  have s: "strip [120, 10] = [120]"
    by (simp add: strip_def is_space_def)
  have m: "mp4_check ascii_codecs
             \<lparr>returncode = 1, proc_stderr = Some [120, 10], proc_stdout = None\<rparr>
             = Inl (RuntimeError (lit ''FFmpeg failed (code=1): x''))"
    by (simp add: mp4_check_def or_empty_def d s str_int_1 Let_def lit_def)
  have w: "webm_check ascii_codecs
             \<lparr>returncode = 1, proc_stderr = Some [120, 10], proc_stdout = None\<rparr>
             = Inl (RuntimeError (lit ''FFmpeg failed (code=1): x''))"
    by (simp add: webm_check_def or_empty_def d s str_int_1 Let_def lit_def)
  have n: "\<not> contains (lit ''FFmpeg failed (code=1): x'') [120, 10]"
    by code_simp
  show ?thesis
    using d m w n by blast
qed

section \<open>Properties of the slide durations\<close>

lemma written_duration_pos: "0 < written_duration d"
  by (simp add: written_duration_def)







section \<open>Properties of the image resolver\<close>










section \<open>Properties of the output format check\<close>

lemma output_fmt_default:
  "output_fmt None = lit ''webm''" "output_fmt (Some []) = lit ''webm''"
  by (simp_all add: output_fmt_def strip_def lower_def lower_ascii_def is_space_def lit_def)

lemma output_fmt_bad_is_given:
  assumes "output_fmt output_format \<noteq> lit ''webm''"
  shows "\<exists>s. output_format = Some s \<and> s \<noteq> []"
proof (cases output_format)
  case None
  with assms output_fmt_default(1) show ?thesis by simp
next
  case (Some s)
  with assms output_fmt_default(2) show ?thesis by auto
qed

lemma combine_resolution_failed:
  "resolve_slides w a = Inl e \<Longrightarrow> combine_audio_video w a = ([], Inl e)"
  by (simp add: combine_audio_video_def)

lemma combine_no_slides:
  "resolve_slides w a = Inr [] \<Longrightarrow>
     combine_audio_video w a = ([], Inl (ValueError (lit ''No slides to process'')))"
  by (simp add: combine_audio_video_def)

lemma combine_bad_format:
  assumes "resolve_slides w a = Inr slides" and "slides \<noteq> []"
    and "output_fmt (a_output_format a) \<noteq> lit ''webm''"
    and "output_fmt (a_output_format a) \<noteq> lit ''mp4''"
    and "a_output_format a = Some s"
  shows "combine_audio_video w a =
           ([], Inl (ValueError (lit ''Unsupported output_format: '' @ s)))"
  using assms by (simp add: combine_audio_video_def Let_def)

lemma combine_good_format:
  assumes "resolve_slides w a = Inr slides" and "slides \<noteq> []"
    and "output_fmt (a_output_format a) = lit ''webm''
         \<or> output_fmt (a_output_format a) = lit ''mp4''"
  shows "\<exists>fx res. combine_audio_video w a =
           (fx @ [Encode (output_fmt (a_output_format a))
                    (os_join w (a_output_dir a)
                       (a_output_name a @ lit ''.'' @ output_fmt (a_output_format a)))],
            res)
         \<and> (\<forall>p. res = Inr p \<longrightarrow>
               p = os_join w (a_output_dir a)
                     (a_output_name a @ lit ''.'' @ output_fmt (a_output_format a)))"
proof -
  let ?fmt = "output_fmt (a_output_format a)"
  let ?out = "os_join w (a_output_dir a) (a_output_name a @ lit ''.'' @ ?fmt)"
  let ?sub = "os_join w (temp_dir_of w a) (lit ''_subtitles_'' @ a_output_name a @ lit ''.ass'')"
  let ?fx = "if a_subtitle a
             then [GenerateSubtitle ?sub (generate_ass_subtitle (map slide_info_of slides))]
             else []"
  let ?rendered = "if ?fmt = lit ''webm''
          then render_webm_with_ffmpeg w
                 (if a_subtitle a then (os_exists w)(?sub := True) else os_exists w)
                 (a_resolution a) slides ?out (if a_subtitle a then Some ?sub else None)
          else render_mp4_with_ffmpeg w
                 (if a_subtitle a then (os_exists w)(?sub := True) else os_exists w)
                 (a_resolution a) slides ?out (if a_subtitle a then Some ?sub else None)"
  have good: "\<not> (?fmt \<noteq> lit ''webm'' \<and> ?fmt \<noteq> lit ''mp4'')"
    using assms(3) by blast
  have c: "combine_audio_video w a =
            (case ?rendered of
               Inl e \<Rightarrow> (?fx @ [Encode ?fmt ?out], Inl e)
             | Inr u \<Rightarrow> (?fx @ [Encode ?fmt ?out], Inr ?out))"
    unfolding combine_audio_video_def Let_def assms(1) sum.case
    using assms(2) good by (simp only: if_False)
  show ?thesis
    unfolding c by (cases ?rendered) auto
qed

lemma combine_webm_success:
  assumes "resolve_slides w a = Inr slides" and "slides \<noteq> []"
    and "output_fmt (a_output_format a) = lit ''webm''"
    and "out = os_join w (a_output_dir a) (a_output_name a @ lit ''.'' @ lit ''webm'')"
    and "sub = os_join w (temp_dir_of w a) (lit ''_subtitles_'' @ a_output_name a @ lit ''.ass'')"
    and "render_webm_with_ffmpeg w
           (if a_subtitle a then (os_exists w)(sub := True) else os_exists w)
           (a_resolution a) slides out (if a_subtitle a then Some sub else None) = Inr ()"
  shows "snd (combine_audio_video w a) = Inr out"
  unfolding combine_audio_video_def Let_def assms(1) sum.case assms(3)
  using assms(2) assms(6) unfolding assms(4) assms(5)
  by simp

lemma combine_returns:
  assumes "snd (combine_audio_video w a) = Inr p"
  shows "p = os_join w (a_output_dir a)
               (a_output_name a @ lit ''.'' @ output_fmt (a_output_format a))
       \<and> (output_fmt (a_output_format a) = lit ''webm''
          \<or> output_fmt (a_output_format a) = lit ''mp4'')
       \<and> last (fst (combine_audio_video w a)) = Encode (output_fmt (a_output_format a)) p"
proof (cases "resolve_slides w a")
  case (Inl e)
  with assms show ?thesis
    by (simp add: combine_resolution_failed)
next
  case (Inr slides)
  have ne: "slides \<noteq> []"
  proof
    assume "slides = []"
    with Inr assms show False
      by (simp add: combine_no_slides)
  qed
  have good: "output_fmt (a_output_format a) = lit ''webm''
              \<or> output_fmt (a_output_format a) = lit ''mp4''"
  proof (rule ccontr)
    assume b: "\<not> (output_fmt (a_output_format a) = lit ''webm''
                   \<or> output_fmt (a_output_format a) = lit ''mp4'')"
    then obtain s where s: "a_output_format a = Some s"
      using output_fmt_bad_is_given by blast
    from combine_bad_format [OF Inr ne _ _ s] b assms show False
      by simp
  qed
  from combine_good_format [OF Inr ne good] assms good show ?thesis
    by auto
qed

text \<open>
  C10 (as amended). For every call to \<open>combine_audio_video\<close>: a \<open>None\<close> or empty
  \<open>output_format\<close> defaults to \<open>webm\<close>. If \<open>output_format\<close>, after lowercasing and
  stripping white space, is neither \<open>webm\<close> nor \<open>mp4\<close>, the call raises before any
  subtitle generation or encoding is attempted: the failure of slide resolution when that
  fails first (missing temp folder, no image, failed silence synthesis), the
  \<open>ValueError\<close> for no slides when there is none, and otherwise the \<open>ValueError\<close>
  \<open>Unsupported output_format\<close> naming the argument. A returned path is
  \<open>output_dir/output_name\<close> with the chosen format as extension, and the encoder was
  run for that format and path.
\<close>

theorem output_format_gate:
  "output_fmt None = lit ''webm'' \<and> output_fmt (Some []) = lit ''webm''
   \<and> (output_fmt (a_output_format a) \<noteq> lit ''webm''
        \<and> output_fmt (a_output_format a) \<noteq> lit ''mp4'' \<longrightarrow>
         fst (combine_audio_video w a) = []
       \<and> (\<exists>e. snd (combine_audio_video w a) = Inl e)
       \<and> (\<forall>e. resolve_slides w a = Inl e \<longrightarrow> snd (combine_audio_video w a) = Inl e)
       \<and> (resolve_slides w a = Inr [] \<longrightarrow>
            snd (combine_audio_video w a) = Inl (ValueError (lit ''No slides to process'')))
       \<and> (\<forall>slides. resolve_slides w a = Inr slides \<and> slides \<noteq> [] \<longrightarrow>
            (\<exists>s. a_output_format a = Some s
               \<and> snd (combine_audio_video w a)
                   = Inl (ValueError (lit ''Unsupported output_format: '' @ s)))))
   \<and> (\<forall>p. snd (combine_audio_video w a) = Inr p \<longrightarrow>
         p = os_join w (a_output_dir a)
               (a_output_name a @ lit ''.'' @ output_fmt (a_output_format a))
       \<and> (output_fmt (a_output_format a) = lit ''webm''
          \<or> output_fmt (a_output_format a) = lit ''mp4'')
       \<and> last (fst (combine_audio_video w a)) = Encode (output_fmt (a_output_format a)) p)"
proof -
  have bad: "fst (combine_audio_video w a) = []
       \<and> (\<exists>e. snd (combine_audio_video w a) = Inl e)
       \<and> (\<forall>e. resolve_slides w a = Inl e \<longrightarrow> snd (combine_audio_video w a) = Inl e)
       \<and> (resolve_slides w a = Inr [] \<longrightarrow>
            snd (combine_audio_video w a) = Inl (ValueError (lit ''No slides to process'')))
       \<and> (\<forall>slides. resolve_slides w a = Inr slides \<and> slides \<noteq> [] \<longrightarrow>
            (\<exists>s. a_output_format a = Some s
               \<and> snd (combine_audio_video w a)
                   = Inl (ValueError (lit ''Unsupported output_format: '' @ s))))"
    if b: "output_fmt (a_output_format a) \<noteq> lit ''webm''
           \<and> output_fmt (a_output_format a) \<noteq> lit ''mp4''"
  proof -
    from b output_fmt_bad_is_given obtain s where s: "a_output_format a = Some s"
      by blast
    show ?thesis
    proof (cases "resolve_slides w a")
      case (Inl e)
      then show ?thesis
        by (simp add: combine_resolution_failed)
    next
      case (Inr slides)
      show ?thesis
      proof (cases "slides = []")
        case True
        with Inr show ?thesis
          by (simp add: combine_no_slides)
      next
        case False
        from combine_bad_format [OF Inr False _ _ s] b
        have "combine_audio_video w a =
                ([], Inl (ValueError (lit ''Unsupported output_format: '' @ s)))"
          by blast
        with Inr False s show ?thesis
          by simp
      qed
    qed
  qed
  show ?thesis
    using output_fmt_default bad combine_returns [of w a] by blast
qed

theorem output_format_gate_witness:
  "combine_audio_video (demo_world [lit ''out/temp''] [lit ''slide_000.png''] [] None)
     (demo_args (Some (lit ''avi'')))
     = ([], Inl (ValueError (lit ''Unsupported output_format: avi'')))
   \<and> snd (combine_audio_video (demo_world [lit ''out/temp''] [lit ''slide_000.png''] [] None)
            (demo_args None))
     = Inr (lit ''out/output.webm'')
   \<and> output_fmt (Some ([32] @ lit ''MP4'' @ [10])) = lit ''mp4''"
proof -
  let ?w = "demo_world [lit ''out/temp''] [lit ''slide_000.png''] [] None"
  let ?s = "[\<lparr>page_index = 0, image_path = lit ''out/temp/slide_000.png'',
              audio_path = lit ''out/temp/_silence_000.mp3'', script_text = [],
              duration = 5\<rparr>]"
  have r: "resolve_slides ?w (demo_args (Some (lit ''avi''))) = Inr ?s"
    by code_simp
  have f: "output_fmt (a_output_format (demo_args (Some (lit ''avi'')))) \<noteq> lit ''webm''
           \<and> output_fmt (a_output_format (demo_args (Some (lit ''avi'')))) \<noteq> lit ''mp4''"
    by (simp add: demo_args_def output_fmt_def strip_def lower_def lower_ascii_def is_space_def lit_def)
  have g: "a_output_format (demo_args (Some (lit ''avi''))) = Some (lit ''avi'')"
    by (simp add: demo_args_def)
  have l: "lit ''Unsupported output_format: '' @ lit ''avi''
             = lit ''Unsupported output_format: avi''"
    by (simp add: lit_def)
  from output_format_gate [of "demo_args (Some (lit ''avi''))" ?w] f r g
  have "fst (combine_audio_video ?w (demo_args (Some (lit ''avi'')))) = []
      \<and> snd (combine_audio_video ?w (demo_args (Some (lit ''avi''))))
          = Inl (ValueError (lit ''Unsupported output_format: '' @ lit ''avi''))"
    by auto
  then have a: "combine_audio_video ?w (demo_args (Some (lit ''avi'')))
                  = ([], Inl (ValueError (lit ''Unsupported output_format: avi'')))"
    unfolding l by (simp add: prod_eq_iff)
  have r2: "resolve_slides ?w (demo_args None) = Inr ?s"
    by code_simp
  have f2: "output_fmt (a_output_format (demo_args None)) = lit ''webm''"
    by (simp add: demo_args_def output_fmt_def strip_def lower_def lower_ascii_def is_space_def lit_def)
  have o2: "lit ''out/output.webm''
              = os_join ?w (a_output_dir (demo_args None))
                  (a_output_name (demo_args None) @ lit ''.'' @ lit ''webm'')"
    by code_simp
  have s2: "lit ''out/temp/_subtitles_output.ass''
              = os_join ?w (temp_dir_of ?w (demo_args None))
                  (lit ''_subtitles_'' @ a_output_name (demo_args None) @ lit ''.ass'')"
    by code_simp
  have d2: "render_webm_with_ffmpeg ?w
              (if a_subtitle (demo_args None)
               then (os_exists ?w)(lit ''out/temp/_subtitles_output.ass'' := True)
               else os_exists ?w)
              (a_resolution (demo_args None)) ?s (lit ''out/output.webm'')
              (if a_subtitle (demo_args None)
               then Some (lit ''out/temp/_subtitles_output.ass'') else None) = Inr ()"
    by code_simp
  have ne: "?s \<noteq> []"
    by simp
  have b: "snd (combine_audio_video ?w (demo_args None)) = Inr (lit ''out/output.webm'')"
    by (rule combine_webm_success [OF r2 ne f2 o2 s2 d2])
  have c: "output_fmt (Some ([32] @ lit ''MP4'' @ [10])) = lit ''mp4''"
    by (simp add: output_fmt_def strip_def lower_def lower_ascii_def is_space_def lit_def)
  show ?thesis
    by (intro conjI) (rule a, rule b, rule c)
qed

text \<open>
  C10 as stated fails: with an unsupported format and no temp folder the call raises
  \<open>FileNotFoundError\<close>, not \<open>ValueError\<close>.
\<close>

theorem output_format_not_value_error_counterexample:
  "output_fmt (a_output_format (demo_args (Some (lit ''avi'')))) \<noteq> lit ''webm''
   \<and> output_fmt (a_output_format (demo_args (Some (lit ''avi'')))) \<noteq> lit ''mp4''
   \<and> combine_audio_video (demo_world [] [lit ''slide_000.png''] [] None)
        (demo_args (Some (lit ''avi'')))
      = ([], Inl (FileNotFoundError (lit ''temp folder not found: out/temp'')))"
proof -
  have f: "output_fmt (a_output_format (demo_args (Some (lit ''avi'')))) \<noteq> lit ''webm''
           \<and> output_fmt (a_output_format (demo_args (Some (lit ''avi'')))) \<noteq> lit ''mp4''"
    by (simp add: demo_args_def output_fmt_def strip_def lower_def lower_ascii_def is_space_def lit_def)
  have r: "resolve_slides (demo_world [] [lit ''slide_000.png''] [] None)
             (demo_args (Some (lit ''avi'')))
           = Inl (FileNotFoundError (lit ''temp folder not found: out/temp''))"
    by code_simp
  show ?thesis
    using f combine_resolution_failed [OF r] by blast
qed

end
